theory Spec2Isabelle
  imports Complex_Main "HOL-Library.Word"
begin

section \<open>Strings\<close>

text \<open>
  A JavaScript string is a sequence of UTF-16 code units; \<open>length\<close> counts code units,
  as \<open>String.prototype.length\<close> does. \<open>js\<close> embeds an ASCII literal.
\<close>

type_synonym jschar = "16 word"
type_synonym jsstring = "jschar list"

definition js :: "string \<Rightarrow> jsstring" where
  "js s = map (\<lambda>c. of_char c) s"

text \<open>\<open>String.prototype.split\<close> with a one-unit separator: \<open>"".split(":")\<close> is \<open>[""]\<close>.\<close>

fun split_on :: "jschar \<Rightarrow> jsstring \<Rightarrow> jsstring list" where
  "split_on sep [] = [[]]"
| "split_on sep (c # cs) =
     (if c = sep then [] # split_on sep cs
      else (c # hd (split_on sep cs)) # tl (split_on sep cs))"

text \<open>\<open>Array.prototype.join\<close> on an array of strings.\<close>

fun join_with :: "jsstring \<Rightarrow> jsstring list \<Rightarrow> jsstring" where
  "join_with sep [] = []"
| "join_with sep [x] = x"
| "join_with sep (x # y # ys) = x @ sep @ join_with sep (y # ys)"

text \<open>
  The white space and line terminators that \<open>String.prototype.trim\<close> strips: TAB, LF, VT,
  FF, CR, SP, NBSP, U+1680, U+2000 to U+200A, LS, PS, U+202F, U+205F, U+3000 and the BOM.
\<close>

definition isWhiteSpace :: "jschar \<Rightarrow> bool" where
  "isWhiteSpace c =
     ((9 \<le> c \<and> c \<le> 13) \<or> c = 32 \<or> c = 160 \<or> c = 5760 \<or> (8192 \<le> c \<and> c \<le> 8202)
      \<or> c = 8232 \<or> c = 8233 \<or> c = 8239 \<or> c = 8287 \<or> c = 12288 \<or> c = 65279)"

definition trim :: "jsstring \<Rightarrow> jsstring" where
  "trim s = rev (dropWhile isWhiteSpace (rev (dropWhile isWhiteSpace s)))"

section \<open>Errors\<close>

text \<open>
  Every \<open>throw\<close> and every promise rejection of the script, one constructor per site, and
  the \<open>TypeError\<close> the runtime throws when a field of \<open>null\<close> is read.
\<close>

datatype error =
    InvalidSessionId jsstring
  | SessionNotFound jsstring
  | JsonSyntaxError jsstring
  | ENOENT jsstring
  | InvalidSessionName jsstring
  | SessionNameTooLong jsstring
  | InvalidModelFormat jsstring
  | SessionAlreadyExists jsstring
  | ResponseError jsstring
  | StreamingError jsstring
  | MessageError jsstring
  | HookErrorFatal jsstring
  | ProcessExited
  | UncaughtTypeError
  | TimeoutWaiting nat
  | TimeoutInactivity nat

section \<open>Session records and the filesystem\<close>

text \<open>
  The JSON object kept in \<open><id>.info.json\<close>. The interface \<open>SessionInfo\<close> declares the
  first eight fields; \<open>closeSession\<close> adds \<open>status\<close> and \<open>closedAt\<close> through a cast, so
  they are optional here and absent from the object \<open>cmdStart\<close> builds.
\<close>

record SessionInfo =
  info_id :: jsstring
  info_model :: jsstring
  provider :: jsstring
  modelId :: jsstring
  thinking :: "jsstring option"
  tools :: jsstring
  sessionFile :: jsstring
  createdAt :: int
  status :: "jsstring option"
  closedAt :: "int option"

datatype progress_kind = Thinking | Tool | Streaming | Done | Error

record ProgressStatus =
  p_model :: jsstring
  startTime :: int
  p_status :: progress_kind
  toolName :: "jsstring option"
  toolArgs :: "jsstring option"
  elapsed :: "int option"

text \<open>
  File contents: the text \<open>JSON.stringify\<close> gives for a session record, the same for a
  progress record, or bytes that \<open>JSON.parse\<close> rejects with a \<open>SyntaxError\<close> (a transcript
  of several lines, a truncated file). \<open>JSON.parse\<close> gives a stringified record back, so
  the serialisation itself is not modelled. A file that parses to any other JSON value
  (\<open>{}\<close>, \<open>null\<close>, a number) has no representation here: the store holds only what the
  commands below write, and files that do not parse.
\<close>

datatype filedata = InfoJson SessionInfo | ProgressJson ProgressStatus | Bytes jsstring

datatype fs_op =
    Mkdir jsstring | Exists jsstring | ReadFile jsstring | WriteFile jsstring | Unlink jsstring

text \<open>
  The filesystem: the files by path, the directories, and the trace of every \<open>fs\<close> call
  made so far (so that "no filesystem access" is a statement about the state).
\<close>

record world =
  files :: "jsstring \<rightharpoonup> filedata"
  dirs :: "jsstring set"
  fslog :: "fs_op list"

definition mkdirSync :: "jsstring \<Rightarrow> world \<Rightarrow> world" where
  "mkdirSync d w = w\<lparr>dirs := insert d (dirs w), fslog := fslog w @ [Mkdir d]\<rparr>"

definition existsSync :: "jsstring \<Rightarrow> world \<Rightarrow> bool \<times> world" where
  "existsSync p w = (files w p \<noteq> None, w\<lparr>fslog := fslog w @ [Exists p]\<rparr>)"

definition writeFileSync :: "jsstring \<Rightarrow> filedata \<Rightarrow> world \<Rightarrow> world" where
  "writeFileSync p c w = w\<lparr>files := (files w)(p \<mapsto> c), fslog := fslog w @ [WriteFile p]\<rparr>"

definition unlinkSync :: "jsstring \<Rightarrow> world \<Rightarrow> (error + unit) \<times> world" where
  "unlinkSync p w =
     (if files w p = None then (Inl (ENOENT p), w\<lparr>fslog := fslog w @ [Unlink p]\<rparr>)
      else (Inr (), w\<lparr>files := (files w)(p := None), fslog := fslog w @ [Unlink p]\<rparr>))"

definition readFileSync :: "jsstring \<Rightarrow> world \<Rightarrow> (error + filedata) \<times> world" where
  "readFileSync p w =
     (case files w p of
        None \<Rightarrow> (Inl (ENOENT p), w\<lparr>fslog := fslog w @ [ReadFile p]\<rparr>)
      | Some c \<Rightarrow> (Inr c, w\<lparr>fslog := fslog w @ [ReadFile p]\<rparr>))"

text \<open>
  \<open>os.tmpdir()\<close> with \<open>TMPDIR\<close> unset. \<open>path.join\<close> also normalises its result; on a
  directory and a file name without \<open>/\<close> or \<open>.\<close> segments that is the concatenation.
\<close>

definition os_tmpdir :: jsstring where
  "os_tmpdir = js ''/tmp''"

definition path_join :: "jsstring \<Rightarrow> jsstring \<Rightarrow> jsstring" where
  "path_join d f = d @ js ''/'' @ f"

definition getSessionDir :: "world \<Rightarrow> jsstring \<times> world" where
  "getSessionDir w =
     (let dir = path_join os_tmpdir (js ''pi-consult-sessions'')
      in (dir, mkdirSync dir w))"

definition getSessionInfoPath :: "jsstring \<Rightarrow> world \<Rightarrow> jsstring \<times> world" where
  "getSessionInfoPath sessionId w =
     (case getSessionDir w of (dir, w1) \<Rightarrow> (path_join dir (sessionId @ js ''.info.json''), w1))"

definition getSessionFilePath :: "jsstring \<Rightarrow> world \<Rightarrow> jsstring \<times> world" where
  "getSessionFilePath sessionId w =
     (case getSessionDir w of (dir, w1) \<Rightarrow> (path_join dir (sessionId @ js ''.jsonl''), w1))"

definition saveSessionInfo :: "SessionInfo \<Rightarrow> world \<Rightarrow> world" where
  "saveSessionInfo info w =
     (case getSessionInfoPath (info_id info) w of
        (p, w1) \<Rightarrow> writeFileSync p (InfoJson info) w1)"

text \<open>The character class \<open>[a-zA-Z0-9_-]\<close> and the anchored pattern \<open>^[a-zA-Z0-9_-]+$\<close>.\<close>

definition isIdChar :: "jschar \<Rightarrow> bool" where
  "isIdChar c =
     ((97 \<le> c \<and> c \<le> 122) \<or> (65 \<le> c \<and> c \<le> 90) \<or> (48 \<le> c \<and> c \<le> 57)
      \<or> c = 95 \<or> c = 45)"

definition matchesIdPattern :: "jsstring \<Rightarrow> bool" where
  "matchesIdPattern s = (s \<noteq> [] \<and> list_all isIdChar s)"

definition validateSessionId :: "jsstring \<Rightarrow> error + unit" where
  "validateSessionId sessionId =
     (if \<not> matchesIdPattern sessionId then Inl (InvalidSessionId sessionId) else Inr ())"

text \<open>
  \<open>JSON.parse\<close> on the contents of the file at \<open>p\<close>, read as a session record. This is
  what the code does on a session record and on bytes that do not parse. A progress
  record is written to \<open>PROGRESS_FILE\<close> only, which is the path of no session; one found
  at the path of a session is refused here like bytes that do not parse.
\<close>

definition parseSessionInfo :: "jsstring \<Rightarrow> filedata \<Rightarrow> error + SessionInfo" where
  "parseSessionInfo p c = (case c of InfoJson info \<Rightarrow> Inr info | _ \<Rightarrow> Inl (JsonSyntaxError p))"

definition loadSessionInfo :: "jsstring \<Rightarrow> world \<Rightarrow> (error + SessionInfo) \<times> world" where
  "loadSessionInfo sessionId w =
     (case validateSessionId sessionId of
        Inl e \<Rightarrow> (Inl e, w)
      | Inr _ \<Rightarrow>
          (case getSessionInfoPath sessionId w of (infoPath, w1) \<Rightarrow>
             (case existsSync infoPath w1 of (ex, w2) \<Rightarrow>
                if \<not> ex then (Inl (SessionNotFound sessionId), w2)
                else (case readFileSync infoPath w2 of
                        (Inl e, w3) \<Rightarrow> (Inl e, w3)
                      | (Inr c, w3) \<Rightarrow> (parseSessionInfo infoPath c, w3)))))"

text \<open>\<open>now\<close> is the value \<open>Date.now()\<close> returns at the call.\<close>

definition closeSession :: "int \<Rightarrow> jsstring \<Rightarrow> world \<Rightarrow> (error + unit) \<times> world" where
  "closeSession now sessionId w =
     (case validateSessionId sessionId of
        Inl e \<Rightarrow> (Inl e, w)
      | Inr _ \<Rightarrow>
          (case loadSessionInfo sessionId w of
             (Inl e, w1) \<Rightarrow> (Inl e, w1)
           | (Inr info, w1) \<Rightarrow>
               (Inr (),
                saveSessionInfo (info\<lparr>status := Some (js ''closed''), closedAt := Some now\<rparr>) w1)))"

definition purgeSession :: "jsstring \<Rightarrow> world \<Rightarrow> (error + unit) \<times> world" where
  "purgeSession sessionId w =
     (case validateSessionId sessionId of
        Inl e \<Rightarrow> (Inl e, w)
      | Inr _ \<Rightarrow>
          (case getSessionInfoPath sessionId w of (infoPath, w1) \<Rightarrow>
            (case getSessionFilePath sessionId w1 of (sessionFileP, w2) \<Rightarrow>
              (case existsSync infoPath w2 of (ex1, w3) \<Rightarrow>
                (case (if ex1 then unlinkSync infoPath w3 else (Inr (), w3)) of
                   (Inl e, w4) \<Rightarrow> (Inl e, w4)
                 | (Inr _, w4) \<Rightarrow>
                     (case existsSync sessionFileP w4 of (ex2, w5) \<Rightarrow>
                        if ex2 then unlinkSync sessionFileP w5 else (Inr (), w5)))))))"

section \<open>Commands\<close>

record StartOptions =
  so_model :: jsstring
  so_thinking :: "jsstring option"
  so_tools :: "jsstring option"
  so_name :: "jsstring option"

definition DEFAULT_TOOLS :: jsstring where
  "DEFAULT_TOOLS = js ''read,grep,find,ls''"

definition validateSessionName :: "jsstring \<Rightarrow> error + unit" where
  "validateSessionName name =
     (if \<not> matchesIdPattern name then Inl (InvalidSessionName name)
      else if length name > 64 then Inl (SessionNameTooLong name)
      else Inr ())"

text \<open>Truthiness of an optional string: \<open>undefined\<close> and \<open>""\<close> are falsy.\<close>

definition truthy :: "jsstring option \<Rightarrow> bool" where
  "truthy v = (case v of None \<Rightarrow> False | Some s \<Rightarrow> s \<noteq> [])"

text \<open>
  \<open>uuid\<close> is the value \<open>crypto.randomUUID()\<close> returns when it is called, \<open>now\<close> the value
  of \<open>Date.now()\<close>. The first \<open>case\<close> is the \<open>if (options.name)\<close> statement that sets
  \<open>sessionId\<close> or throws.
\<close>

definition cmdStart ::
  "StartOptions \<Rightarrow> jsstring \<Rightarrow> int \<Rightarrow> world \<Rightarrow> (error + jsstring) \<times> world"
where
  "cmdStart options uuid now w =
     (let modelParts = split_on 58 (so_model options) in
      if length modelParts < 2 then (Inl (InvalidModelFormat (so_model options)), w)
      else
        (let prov = hd modelParts;
             mid = join_with (js '':'') (tl modelParts)
         in
           (case (if truthy (so_name options) then
                    (let name = the (so_name options) in
                       (case validateSessionName name of
                          Inl e \<Rightarrow> (Inl e, w)
                        | Inr _ \<Rightarrow>
                            (case getSessionInfoPath name w of (existingPath, w1) \<Rightarrow>
                              (case existsSync existingPath w1 of (ex, w2) \<Rightarrow>
                                 if ex then (Inl (SessionAlreadyExists name), w2)
                                 else (Inr name, w2)))))
                  else (Inr uuid, w)) of
              (Inl e, w3) \<Rightarrow> (Inl e, w3)
            | (Inr sessionId, w3) \<Rightarrow>
                (case getSessionFilePath sessionId w3 of (sf, w4) \<Rightarrow>
                   (Inr sessionId,
                    saveSessionInfo
                      \<lparr>info_id = sessionId, info_model = so_model options, provider = prov,
                       modelId = mid, thinking = so_thinking options,
                       tools = (if truthy (so_tools options) then the (so_tools options)
                                else DEFAULT_TOOLS),
                       sessionFile = sf, createdAt = now, status = None, closedAt = None\<rparr>
                      w4)))))"

definition cmdEnd :: "int \<Rightarrow> jsstring \<Rightarrow> world \<Rightarrow> (error + unit) \<times> world" where
  "cmdEnd now sessionId w = closeSession now sessionId w"

definition cmdPurge :: "jsstring \<Rightarrow> world \<Rightarrow> (error + unit) \<times> world" where
  "cmdPurge sessionId w = purgeSession sessionId w"

text \<open>The status column of \<open>cmdList\<close>: \<open>info.status === "closed" ? "closed" : "active"\<close>.\<close>

definition listStatus :: "SessionInfo \<Rightarrow> jsstring" where
  "listStatus info = (if status info = Some (js ''closed'') then js ''closed'' else js ''active'')"

section \<open>Protocol events\<close>

text \<open>
  The subordinate process writes one JSON value per line. The script reads the fields
  below and no others; a field that is absent (\<open>undefined\<close>) is \<open>None\<close>. JavaScript numbers
  are taken as exact rationals: the rounding of doubles is not modelled.
\<close>

record MsgCost =
  total :: "rat option"

record MsgUsage =
  mu_input :: "rat option"
  mu_output :: "rat option"
  mu_cost :: "MsgCost option"

text \<open>
  One element of a content array: its \<open>type\<close> when that is a string, and its \<open>text\<close> when
  \<open>typeof c.text === "string"\<close>. A \<open>null\<close> element has neither.
\<close>

record ContentPart =
  part_type :: "jsstring option"
  part_text :: "jsstring option"

datatype content = StringContent jsstring | ArrayContent "ContentPart list" | OtherContent

record message =
  role :: "jsstring option"
  m_usage :: "MsgUsage option"
  m_content :: content
  errorMessage :: "jsstring option"

datatype assistantMessageEvent =
    TextDelta jsstring | ThinkingDelta | ErrorDelta "jsstring option" | OtherDelta

text \<open>
  \<open>Response rid success err\<close>: \<open>rid\<close> is \<open>Some n\<close> when \<open>event.id\<close> is the string
  \<open>req-n\<close>, the only keys \<open>pending\<close> ever holds, and \<open>None\<close> for any other or no id.
  \<open>ToolExecutionStart name args\<close> carries \<open>JSON.stringify(event.args || {})\<close> as \<open>args\<close>.
\<close>

datatype event =
    Response "nat option" bool "jsstring option"
  | MessageUpdate "assistantMessageEvent option"
  | MessageEnd "message option"
  | ToolExecutionStart "jsstring option" jsstring
  | ToolExecutionUpdate
  | ToolExecutionEnd
  | AgentEnd "message list"
  | HookError "jsstring option"
  | OtherEvent

text \<open>
  One line of the child's output: \<open>Json ev\<close> parses to a JSON value other than \<open>null\<close> (a
  value with none of the fields above is \<open>OtherEvent\<close>: no branch of the callback takes
  it), \<open>JsonNull\<close> is the line \<open>null\<close>, and \<open>NonJson\<close> is a line \<open>JSON.parse\<close> rejects.
\<close>

datatype line = Json event | JsonNull | NonJson

section \<open>One turn: \<open>sendToAgent\<close>\<close>

record Usage =
  u_input :: rat
  u_output :: rat
  u_cost :: rat

record SendResult =
  response :: jsstring
  r_usage :: "Usage option"

datatype 'a promise = Pending | Resolved 'a | Rejected error

definition resolveP :: "'a \<Rightarrow> 'a promise \<Rightarrow> 'a promise" where
  "resolveP v p = (case p of Pending \<Rightarrow> Resolved v | _ \<Rightarrow> p)"

definition rejectP :: "error \<Rightarrow> 'a promise \<Rightarrow> 'a promise" where
  "rejectP e p = (case p of Pending \<Rightarrow> Rejected e | _ \<Rightarrow> p)"

datatype command = GetState | Prompt jsstring

datatype signal = SIGTERM

text \<open>
  The local variables of \<open>sendToAgent\<close> and the handles it owns. \<open>replies n\<close> is the promise
  \<open>sendCommand\<close> returned for \<open>req-n\<close>; \<open>timeoutHandle\<close> is the armed timer, as its due
  time and the error its callback rejects \<open>timeoutPromise\<close> with; \<open>stdinWritten\<close>,
  \<open>rlOpen\<close>, \<open>stdinOpen\<close> and \<open>killed\<close> are the child process as this function sees it.
\<close>

record turn =
  modelName :: jsstring
  t_startTime :: int
  timeout :: int
  t_message :: jsstring
  responseText :: jsstring
  usage :: "Usage option"
  agentMessages :: "message list"
  finished :: bool
  reqId :: nat
  pending :: "nat set"
  replies :: "nat \<Rightarrow> unit promise"
  donePromise :: "unit promise"
  timeoutPromise :: "unit promise"
  timeoutHandle :: "(int \<times> error) option"
  stdinWritten :: "(nat \<times> command) list"
  rlOpen :: bool
  stdinOpen :: bool
  killed :: "signal list"

definition extractTextFromMessage :: "message option \<Rightarrow> jsstring" where
  "extractTextFromMessage m =
     (case m of
        None \<Rightarrow> []
      | Some msg \<Rightarrow>
          (case m_content msg of
             StringContent s \<Rightarrow> s
           | ArrayContent parts \<Rightarrow>
               join_with (js [CHR 0x0A, CHR 0x0A])
                 (map (\<lambda>c. the (part_text c))
                    (filter (\<lambda>c. part_type c = Some (js ''text'') \<and> part_text c \<noteq> None) parts))
           | OtherContent \<Rightarrow> []))"

definition PROGRESS_FILE :: jsstring where
  "PROGRESS_FILE = js ''/tmp/pi-consult-progress.json''"

text \<open>Both progress functions swallow every exception; none arises in this filesystem.\<close>

definition writeProgress :: "int \<Rightarrow> ProgressStatus \<Rightarrow> world \<Rightarrow> world" where
  "writeProgress now st w =
     writeFileSync PROGRESS_FILE
       (ProgressJson (st\<lparr>elapsed := Some ((now - startTime st) div 1000)\<rparr>)) w"

definition clearProgress :: "world \<Rightarrow> world" where
  "clearProgress w =
     (case existsSync PROGRESS_FILE w of (ex, w1) \<Rightarrow>
        if ex then snd (unlinkSync PROGRESS_FILE w1) else w1)"

text \<open>
  \<open>setTimeout\<close> honours a delay from 1 to \<open>2^31 - 1\<close> milliseconds and replaces any other
  by 1. A timer is due at the time it was set plus that delay.
\<close>

definition timerDelay :: "int \<Rightarrow> int" where
  "timerDelay d = (if d < 1 \<or> 2147483647 < d then 1 else d)"

definition resetTimeout :: "int \<Rightarrow> turn \<Rightarrow> turn" where
  "resetTimeout now st =
     st\<lparr>timeoutHandle := Some (now + timerDelay (timeout st), TimeoutInactivity (nat (timeout st)))\<rparr>"

definition sendCommand :: "command \<Rightarrow> turn \<Rightarrow> turn" where
  "sendCommand c st =
     (let n = reqId st + 1 in
      st\<lparr>reqId := n, stdinWritten := stdinWritten st @ [(n, c)],
         replies := (replies st)(n := Pending), pending := insert n (pending st)\<rparr>)"

definition rejectDone :: "error \<Rightarrow> turn \<Rightarrow> turn" where
  "rejectDone e st = st\<lparr>donePromise := rejectP e (donePromise st)\<rparr>"

definition resolveDone :: "turn \<Rightarrow> turn" where
  "resolveDone st = st\<lparr>donePromise := resolveP () (donePromise st)\<rparr>"

text \<open>\<open>x || 0\<close> on an optional number.\<close>

definition orZero :: "rat option \<Rightarrow> rat" where
  "orZero x = (case x of None \<Rightarrow> 0 | Some v \<Rightarrow> v)"

text \<open>\<open>s || d\<close> on an optional string.\<close>

definition orElse :: "jsstring option \<Rightarrow> jsstring \<Rightarrow> jsstring" where
  "orElse s d = (if truthy s then the s else d)"

text \<open>One iteration of the loop over \<open>agentMessages\<close> in the \<open>agent_end\<close> branch.\<close>

definition addUsage :: "Usage \<Rightarrow> message \<Rightarrow> Usage" where
  "addUsage u msg =
     (if role msg = Some (js ''assistant'') \<and> m_usage msg \<noteq> None then
        (let mu = the (m_usage msg) in
         \<lparr>u_input = u_input u + orZero (mu_input mu),
          u_output = u_output u + orZero (mu_output mu),
          u_cost = u_cost u + orZero (case mu_cost mu of None \<Rightarrow> None | Some c \<Rightarrow> total c)\<rparr>)
      else u)"

text \<open>\<open>[...agentMessages].reverse().find(m => m?.role === "assistant")\<close>\<close>

definition lastAssistant :: "message list \<Rightarrow> message option" where
  "lastAssistant msgs = find (\<lambda>m. role m = Some (js ''assistant'')) (rev msgs)"

text \<open>The \<open>response\<close> branch of the line callback.\<close>

definition on_response :: "nat option \<Rightarrow> bool \<Rightarrow> jsstring option \<Rightarrow> turn \<Rightarrow> turn" where
  "on_response rid success err st =
     (let waiter = (case rid of None \<Rightarrow> None
                    | Some n \<Rightarrow> if n \<in> pending st then Some n else None);
          st1 = (case rid of None \<Rightarrow> st | Some n \<Rightarrow> st\<lparr>pending := pending st - {n}\<rparr>)
      in
        (case waiter of
           Some n \<Rightarrow>
             if \<not> success then
               st1\<lparr>replies := (replies st1)
                  (n := rejectP (ResponseError (orElse err (js ''Unknown error''))) (replies st1 n))\<rparr>
             else st1\<lparr>replies := (replies st1)(n := resolveP () (replies st1 n))\<rparr>
         | None \<Rightarrow>
             if \<not> success then rejectDone (ResponseError (orElse err (js ''Unknown error''))) st1
             else st1))"

text \<open>The \<open>agent_end\<close> branch of the line callback.\<close>

definition on_agent_end :: "message list \<Rightarrow> turn \<Rightarrow> turn" where
  "on_agent_end msgs st =
     (let st1 = st\<lparr>agentMessages := msgs\<rparr>;
          st2 = st1\<lparr>usage := Some (foldl addUsage \<lparr>u_input = 0, u_output = 0, u_cost = 0\<rparr> msgs)\<rparr>;
          st3 = (if trim (responseText st2) = []
                 then st2\<lparr>responseText := extractTextFromMessage (lastAssistant msgs)\<rparr>
                 else st2)
      in resolveDone (st3\<lparr>finished := True\<rparr>))"

definition progressOf :: "turn \<Rightarrow> progress_kind \<Rightarrow> ProgressStatus" where
  "progressOf st k =
     \<lparr>p_model = modelName st, startTime = t_startTime st, p_status = k,
      toolName = None, toolArgs = None, elapsed = None\<rparr>"

text \<open>
  The callback of \<open>rl.on("line")\<close> from its first test of \<open>event.type\<close> on, run at time
  \<open>now\<close> on the value \<open>ev\<close> the line has parsed to.
\<close>

definition on_event :: "int \<Rightarrow> event \<Rightarrow> turn \<times> world \<Rightarrow> turn \<times> world" where
  "on_event now ev sw =
     (case sw of (st, w) \<Rightarrow>
            (case ev of
               Response rid success err \<Rightarrow> (on_response rid success err st, w)
             | MessageUpdate delta \<Rightarrow>
                 (case delta of
                    Some (TextDelta d) \<Rightarrow>
                      (resetTimeout now (st\<lparr>responseText := responseText st @ d\<rparr>),
                       writeProgress now (progressOf st Streaming) w)
                  | Some ThinkingDelta \<Rightarrow>
                      (resetTimeout now st, writeProgress now (progressOf st Thinking) w)
                  | Some (ErrorDelta reason) \<Rightarrow>
                      (rejectDone
                         (StreamingError
                            (case reason of None \<Rightarrow> js ''Streaming error'' | Some r \<Rightarrow> r)) st,
                       w)
                  | Some OtherDelta \<Rightarrow> (st, w)
                  | None \<Rightarrow> (st, w))
             | MessageEnd msg \<Rightarrow>
                 (case msg of
                    None \<Rightarrow> (st, w)
                  | Some m \<Rightarrow>
                      if truthy (errorMessage m)
                      then (rejectDone (MessageError (the (errorMessage m))) st, w)
                      else (st, w))
             | ToolExecutionStart name args \<Rightarrow>
                 (resetTimeout now st,
                  writeProgress now
                    ((progressOf st Tool)\<lparr>toolName := name, toolArgs := Some (take 100 args)\<rparr>) w)
             | ToolExecutionUpdate \<Rightarrow> (resetTimeout now st, w)
             | ToolExecutionEnd \<Rightarrow> (resetTimeout now st, w)
             | AgentEnd msgs \<Rightarrow> (on_agent_end msgs st, w)
             | HookError err \<Rightarrow> (rejectDone (HookErrorFatal (orElse err (js ''Unknown''))) st, w)
             | OtherEvent \<Rightarrow> (st, w)))"

text \<open>
  The whole callback on one line. A line that does not parse is ignored. On the line
  \<open>null\<close> the first read of \<open>event.type\<close> throws a \<open>TypeError\<close>, after the \<open>try\<close> around
  \<open>JSON.parse\<close> and with nothing changed yet; the exception leaves the callback.
\<close>

definition on_line :: "int \<Rightarrow> line \<Rightarrow> turn \<times> world \<Rightarrow> error + turn \<times> world" where
  "on_line now l sw =
     (case l of
        NonJson \<Rightarrow> Inr sw
      | JsonNull \<Rightarrow> Inl UncaughtTypeError
      | Json ev \<Rightarrow> Inr (on_event now ev sw))"

text \<open>
  The lines of one chunk, in their order, as the line reader emits them in one go. An
  exception that leaves the callback stops the run there: the result is the exception
  with the state it left, or the state after the last line.
\<close>

fun on_lines :: "int \<Rightarrow> line list \<Rightarrow> turn \<times> world \<Rightarrow> error option \<times> turn \<times> world" where
  "on_lines now [] sw = (None, sw)"
| "on_lines now (l # ls) sw =
     (case on_line now l sw of
        Inl e \<Rightarrow> (Some e, sw)
      | Inr sw' \<Rightarrow> on_lines now ls sw')"

text \<open>The callback of \<open>proc.on("exit")\<close>.\<close>

definition on_exit :: "turn \<Rightarrow> turn" where
  "on_exit st = (if \<not> finished st then rejectDone ProcessExited st else st)"

text \<open>The \<open>finally\<close> block, in its order.\<close>

definition cleanup :: "turn \<Rightarrow> world \<Rightarrow> turn \<times> world" where
  "cleanup st w =
     (let st1 = st\<lparr>timeoutHandle := None\<rparr>;
          w1 = clearProgress w;
          st2 = st1\<lparr>rlOpen := False\<rparr>;
          st3 = st2\<lparr>stdinOpen := False\<rparr>
      in (st3\<lparr>killed := killed st3 @ [SIGTERM]\<rparr>, w1))"

text \<open>
  The \<open>try\<close> block is suspended at one of its three \<open>await\<close>s, or the function has left
  through \<open>finally\<close> with a result or an exception, or the process of the script has
  ended on an exception that left a callback or on a rejection that no handler takes:
  then nothing of \<open>sendToAgent\<close> runs any more, its \<open>finally\<close> block included.
\<close>

datatype phase = AwaitHandshake | AwaitPrompt | AwaitDone

datatype outcome =
    Running phase turn world
  | Returned "error + SendResult" turn world
  | Crashed error turn world

text \<open>
  \<open>Promise.race([a, b])\<close> as the continuation sees it. Callbacks run one at a time and the
  continuation runs after each, so at most one of the two has settled since it last
  looked, except when \<open>a\<close> had settled before the race was built, and then \<open>a\<close> wins.
\<close>

definition race :: "unit promise \<Rightarrow> unit promise \<Rightarrow> unit promise" where
  "race a b = (case a of Pending \<Rightarrow> b | _ \<Rightarrow> a)"

definition leave :: "error + SendResult \<Rightarrow> turn \<Rightarrow> world \<Rightarrow> outcome" where
  "leave r st w = (case cleanup st w of (st', w') \<Rightarrow> Returned r st' w')"

definition resumeDone :: "turn \<Rightarrow> world \<Rightarrow> outcome" where
  "resumeDone st w =
     (case race (donePromise st) (timeoutPromise st) of
        Pending \<Rightarrow> Running AwaitDone st w
      | Rejected e \<Rightarrow> leave (Inl e) st w
      | Resolved _ \<Rightarrow> leave (Inr \<lparr>response = trim (responseText st), r_usage = usage st\<rparr>) st w)"

text \<open>The prompt is the second command of the turn, \<open>req-2\<close>; the handshake is \<open>req-1\<close>.\<close>

definition resumePrompt :: "turn \<Rightarrow> world \<Rightarrow> outcome" where
  "resumePrompt st w =
     (case race (replies st 2) (timeoutPromise st) of
        Pending \<Rightarrow> Running AwaitPrompt st w
      | Rejected e \<Rightarrow> leave (Inl e) st w
      | Resolved _ \<Rightarrow> resumeDone st w)"

definition resumeHandshake :: "turn \<Rightarrow> world \<Rightarrow> outcome" where
  "resumeHandshake st w =
     (case race (replies st 1) (timeoutPromise st) of
        Pending \<Rightarrow> Running AwaitHandshake st w
      | Rejected e \<Rightarrow> leave (Inl e) st w
      | Resolved _ \<Rightarrow> resumePrompt (sendCommand (Prompt (t_message st)) st) w)"

definition resume :: "phase \<Rightarrow> turn \<Rightarrow> world \<Rightarrow> outcome" where
  "resume ph st w =
     (case ph of
        AwaitHandshake \<Rightarrow> resumeHandshake st w
      | AwaitPrompt \<Rightarrow> resumePrompt st w
      | AwaitDone \<Rightarrow> resumeDone st w)"

text \<open>
  The synchronous part of \<open>sendToAgent\<close>, at time \<open>now\<close>: the first progress record, the
  child, the state, the first timer, and the handshake command. The arguments given to
  \<open>spawn\<close> and the text of \<open>stderr\<close> are left out.
\<close>

definition startTurn :: "jsstring \<Rightarrow> SessionInfo \<Rightarrow> int \<Rightarrow> int \<Rightarrow> world \<Rightarrow> outcome" where
  "startTurn msg info tmo now w =
     (let st0 =
            \<lparr>modelName = modelId info, t_startTime = now, timeout = tmo, t_message = msg,
             responseText = [], usage = None, agentMessages = [], finished = False,
             reqId = 0, pending = {}, replies = (\<lambda>n. Pending),
             donePromise = Pending, timeoutPromise = Pending,
             timeoutHandle = Some (now + timerDelay tmo, TimeoutWaiting (nat tmo)),
             stdinWritten = [], rlOpen = True, stdinOpen = True, killed = []\<rparr>;
          w1 = writeProgress now (progressOf st0 Thinking) w
      in resumeHandshake (sendCommand GetState st0) w1)"

text \<open>
  \<open>donePromise\<close> gets its first handler when the third race is built. When the callbacks
  and the continuation that follows them are done and \<open>sendToAgent\<close> is still suspended,
  a rejected \<open>donePromise\<close> is therefore a rejection without a handler, and the runtime
  ends the process on it. The script installs nothing that would take it.
\<close>

definition unhandledRejection :: "outcome \<Rightarrow> outcome" where
  "unhandledRejection oc =
     (case oc of
        Running ph st w \<Rightarrow>
          (case donePromise st of Rejected e \<Rightarrow> Crashed e st w | _ \<Rightarrow> Running ph st w)
      | _ \<Rightarrow> oc)"

text \<open>
  What happens next, and when: a chunk of the child's output (its lines go through the
  line callback one after the other, then the continuation runs), the child's exit, or
  nothing but the passing of time. A timer that is due runs first, and rejects
  \<open>timeoutPromise\<close>.
\<close>

datatype occurrence = Data "line list" | Exit | Tick

definition timerDue :: "int \<Rightarrow> turn \<Rightarrow> bool" where
  "timerDue now st = (case timeoutHandle st of None \<Rightarrow> False | Some (due, e) \<Rightarrow> due \<le> now)"

definition fireTimer :: "turn \<Rightarrow> turn" where
  "fireTimer st =
     (case timeoutHandle st of
        None \<Rightarrow> st
      | Some (due, e) \<Rightarrow>
          st\<lparr>timeoutPromise := rejectP e (timeoutPromise st), timeoutHandle := None\<rparr>)"

definition step :: "outcome \<Rightarrow> int \<times> occurrence \<Rightarrow> outcome" where
  "step oc ev =
     (case oc of
        Returned r st w \<Rightarrow> Returned r st w
      | Crashed e st w \<Rightarrow> Crashed e st w
      | Running ph st w \<Rightarrow>
          (case ev of (now, x) \<Rightarrow>
             if timerDue now st then unhandledRejection (resume ph (fireTimer st) w)
             else
               (case x of
                  Data ls \<Rightarrow>
                    (case on_lines now ls (st, w) of
                       (Some e, st', w') \<Rightarrow> Crashed e st' w'
                     | (None, st', w') \<Rightarrow> unhandledRejection (resume ph st' w'))
                | Exit \<Rightarrow> unhandledRejection (resume ph (on_exit st) w)
                | Tick \<Rightarrow> Running ph st w)))"

text \<open>
  \<open>sendToAgent\<close> called at time \<open>now\<close>, with the timed occurrences that follow. The outcome
  is \<open>Running\<close> when they end before the promise it returned has settled and the process
  is still there.
\<close>

definition sendToAgent ::
  "jsstring \<Rightarrow> SessionInfo \<Rightarrow> int \<Rightarrow> int \<Rightarrow> (int \<times> occurrence) list \<Rightarrow> world \<Rightarrow> outcome"
where
  "sendToAgent msg info tmo now trace w = foldl step (startTurn msg info tmo now w) trace"

text \<open>\<open>options.timeout || 300000\<close>: an absent or zero timeout is the default.\<close>

definition cmdSend ::
  "jsstring \<Rightarrow> jsstring \<Rightarrow> int option \<Rightarrow> int \<Rightarrow> (int \<times> occurrence) list \<Rightarrow> world
   \<Rightarrow> (error \<times> world) + outcome"
where
  "cmdSend msg session tmo now trace w =
     (case loadSessionInfo session w of
        (Inl e, w1) \<Rightarrow> Inl (e, w1)
      | (Inr info, w1) \<Rightarrow>
          Inr (sendToAgent msg info
                 (case tmo of None \<Rightarrow> 300000 | Some t \<Rightarrow> if t = 0 then 300000 else t)
                 now trace w1))"

section \<open>Vocabulary of the properties\<close>

text \<open>
  The sessions directory, the two paths of a session and the record kept for it, as
  values that do not go through the filesystem; and a filesystem with nothing in it.
\<close>

definition sessionsDir :: jsstring where
  "sessionsDir = path_join os_tmpdir (js ''pi-consult-sessions'')"

definition infoPathOf :: "jsstring \<Rightarrow> jsstring" where
  "infoPathOf sid = path_join sessionsDir (sid @ js ''.info.json'')"

definition filePathOf :: "jsstring \<Rightarrow> jsstring" where
  "filePathOf sid = path_join sessionsDir (sid @ js ''.jsonl'')"

definition persisted :: "world \<Rightarrow> jsstring \<Rightarrow> SessionInfo option" where
  "persisted w sid =
     (case files w (infoPathOf sid) of Some (InfoJson info) \<Rightarrow> Some info | _ \<Rightarrow> None)"

definition emptyWorld :: world where
  "emptyWorld = \<lparr>files = Map.empty, dirs = {}, fslog = []\<rparr>"

text \<open>A record as \<open>closeSession\<close> rewrites it at time \<open>t\<close>.\<close>

definition closedAs :: "SessionInfo \<Rightarrow> int \<Rightarrow> SessionInfo" where
  "closedAs info t = info\<lparr>status := Some (js ''closed''), closedAt := Some t\<rparr>"

text \<open>A session \<open>abc\<close> as \<open>cmdStart\<close> leaves it, its transcript, and a store that holds both.\<close>

definition abcOptions :: StartOptions where
  "abcOptions = \<lparr>so_model = js ''p:m'', so_thinking = None, so_tools = None,
                  so_name = Some (js ''abc'')\<rparr>"

definition abcInfo :: SessionInfo where
  "abcInfo = \<lparr>info_id = js ''abc'', info_model = js ''p:m'', provider = js ''p'',
              modelId = js ''m'', thinking = None, tools = DEFAULT_TOOLS,
              sessionFile = filePathOf (js ''abc''), createdAt = 5, status = None,
              closedAt = None\<rparr>"

definition storedWorld :: world where
  "storedWorld =
     \<lparr>files = [infoPathOf (js ''abc'') \<mapsto> InfoJson abcInfo,
               filePathOf (js ''abc'') \<mapsto> Bytes (js ''{}'' @ [10] @ js ''{}'')],
      dirs = {sessionsDir}, fslog = []\<rparr>"

text \<open>
  What one message of the terminal list contributes to the usage: the three numbers of
  its \<open>usage\<close> object, each 0 when absent. \<open>totalUsage\<close> sums them over the messages whose
  role is \<open>assistant\<close>.
\<close>

definition isAssistant :: "message \<Rightarrow> bool" where
  "isAssistant m = (role m = Some (js ''assistant''))"

definition msgInput :: "message \<Rightarrow> rat" where
  "msgInput m = (case m_usage m of None \<Rightarrow> 0 | Some u \<Rightarrow> orZero (mu_input u))"

definition msgOutput :: "message \<Rightarrow> rat" where
  "msgOutput m = (case m_usage m of None \<Rightarrow> 0 | Some u \<Rightarrow> orZero (mu_output u))"

definition msgCost :: "message \<Rightarrow> rat" where
  "msgCost m =
     (case m_usage m of
        None \<Rightarrow> 0
      | Some u \<Rightarrow> (case mu_cost u of None \<Rightarrow> 0 | Some c \<Rightarrow> orZero (total c)))"

definition totalUsage :: "message list \<Rightarrow> Usage" where
  "totalUsage msgs =
     \<lparr>u_input = sum_list (map msgInput (filter isAssistant msgs)),
      u_output = sum_list (map msgOutput (filter isAssistant msgs)),
      u_cost = sum_list (map msgCost (filter isAssistant msgs))\<rparr>"

text \<open>The two errors the timers reject with, and a promise rejected with one of them.\<close>

definition isTimeout :: "error \<Rightarrow> bool" where
  "isTimeout e = (case e of TimeoutWaiting n \<Rightarrow> True | TimeoutInactivity n \<Rightarrow> True | _ \<Rightarrow> False)"

definition timedOut :: "unit promise \<Rightarrow> bool" where
  "timedOut p = (case p of Rejected e \<Rightarrow> isTimeout e | _ \<Rightarrow> False)"

text \<open>
  The protocol activity events: a text or thinking delta, and the three tool events.
\<close>

definition isActivity :: "event \<Rightarrow> bool" where
  "isActivity ev =
     (case ev of
        MessageUpdate (Some (TextDelta d)) \<Rightarrow> True
      | MessageUpdate (Some ThinkingDelta) \<Rightarrow> True
      | ToolExecutionStart n a \<Rightarrow> True
      | ToolExecutionUpdate \<Rightarrow> True
      | ToolExecutionEnd \<Rightarrow> True
      | _ \<Rightarrow> False)"

definition isActivityLine :: "line \<Rightarrow> bool" where
  "isActivityLine l = (case l of Json ev \<Rightarrow> isActivity ev | _ \<Rightarrow> False)"

text \<open>The promise the suspended \<open>try\<close> block races against \<open>timeoutPromise\<close>.\<close>

definition awaited :: "phase \<Rightarrow> turn \<Rightarrow> unit promise" where
  "awaited ph st =
     (case ph of AwaitHandshake \<Rightarrow> replies st 1 | AwaitPrompt \<Rightarrow> replies st 2
      | AwaitDone \<Rightarrow> donePromise st)"

text \<open>
  What holds of the state of a turn as long as \<open>sendToAgent\<close> has not left (\<open>turnInv\<close>),
  and of its state and the filesystem once it has (\<open>returnedOk\<close>).
\<close>

definition usageInv :: "turn \<Rightarrow> bool" where
  "usageInv st = (donePromise st = Resolved () \<longrightarrow> usage st = Some (totalUsage (agentMessages st)))"

definition noTimeoutYet :: "turn \<Rightarrow> bool" where
  "noTimeoutYet st = (\<not> timedOut (donePromise st) \<and> (\<forall>n. \<not> timedOut (replies st n)))"

definition turnInv :: "turn \<Rightarrow> bool" where
  "turnInv st =
     (usageInv st \<and> noTimeoutYet st \<and> timeoutPromise st = Pending \<and> killed st = []
      \<and> rlOpen st \<and> stdinOpen st
      \<and> (case timeoutHandle st of None \<Rightarrow> False | Some (d, e) \<Rightarrow> isTimeout e))"

definition returnedOk :: "error + SendResult \<Rightarrow> turn \<Rightarrow> world \<Rightarrow> bool" where
  "returnedOk r st w =
     (killed st = [SIGTERM] \<and> \<not> rlOpen st \<and> \<not> stdinOpen st \<and> timeoutHandle st = None
      \<and> files w PROGRESS_FILE = None
      \<and> (case r of
            Inr res \<Rightarrow> res = \<lparr>response = trim (responseText st), r_usage = usage st\<rparr>
                       \<and> usage st = Some (totalUsage (agentMessages st))
          | Inl e \<Rightarrow> isTimeout e = (timeoutPromise st = Rejected e)))"

definition outInv :: "outcome \<Rightarrow> bool" where
  "outInv oc =
     (case oc of
        Running ph st w \<Rightarrow>
          turnInv st \<and> awaited ph st = Pending \<and> files w PROGRESS_FILE \<noteq> None
      | Returned r st w \<Rightarrow> returnedOk r st w
      | Crashed e st w \<Rightarrow> turnInv st \<and> files w PROGRESS_FILE \<noteq> None)"

text \<open>The parts of an outcome.\<close>

definition resultOf :: "outcome \<Rightarrow> (error + SendResult) option" where
  "resultOf oc = (case oc of Returned r st w \<Rightarrow> Some r | _ \<Rightarrow> None)"

definition crashOf :: "outcome \<Rightarrow> error option" where
  "crashOf oc = (case oc of Crashed e st w \<Rightarrow> Some e | _ \<Rightarrow> None)"

definition phaseOf :: "outcome \<Rightarrow> phase option" where
  "phaseOf oc = (case oc of Running ph st w \<Rightarrow> Some ph | _ \<Rightarrow> None)"

definition turnOf :: "outcome \<Rightarrow> turn" where
  "turnOf oc = (case oc of Running ph st w \<Rightarrow> st | Returned r st w \<Rightarrow> st | Crashed e st w \<Rightarrow> st)"

definition worldOf :: "outcome \<Rightarrow> world" where
  "worldOf oc = (case oc of Running ph st w \<Rightarrow> w | Returned r st w \<Rightarrow> w | Crashed e st w \<Rightarrow> w)"

text \<open>
  Sample data: an assistant message with its usage, the terminal list of a turn of two
  steps, the successful reply to command \<open>req-n\<close>, and the start of a turn up to the
  acknowledgment of the prompt.
\<close>

definition assistantMsg :: "rat \<Rightarrow> rat \<Rightarrow> rat \<Rightarrow> content \<Rightarrow> message" where
  "assistantMsg i out c body =
     \<lparr>role = Some (js ''assistant''),
      m_usage = Some \<lparr>mu_input = Some i, mu_output = Some out, mu_cost = Some \<lparr>total = Some c\<rparr>\<rparr>,
      m_content = body, errorMessage = None\<rparr>"

definition twoSteps :: "message list" where
  "twoSteps = [assistantMsg 10 5 (1/100) OtherContent, assistantMsg 20 8 (2/100) OtherContent]"

definition ack :: "nat \<Rightarrow> line" where
  "ack n = Json (Response (Some n) True None)"

definition acked :: "(int \<times> occurrence) list" where
  "acked = [(1, Data [ack 1]), (2, Data [ack 2])]"

text \<open>
  The units that are white space, one by one. A string with no white space at either
  end; and \<open>strips r s\<close>: \<open>r\<close> is \<open>s\<close> less a prefix and a suffix of white space, with none
  left at its ends.
\<close>

definition whiteSpaceUnits :: "jschar list" where
  "whiteSpaceUnits = [9, 10, 11, 12, 13, 32, 160, 5760, 8192, 8193, 8194, 8195, 8196, 8197, 8198,
     8199, 8200, 8201, 8202, 8232, 8233, 8239, 8287, 12288, 65279]"

definition trimmed :: "jsstring \<Rightarrow> bool" where
  "trimmed s = (s = [] \<or> (\<not> isWhiteSpace (hd s) \<and> \<not> isWhiteSpace (last s)))"

definition strips :: "jsstring \<Rightarrow> jsstring \<Rightarrow> bool" where
  "strips r s =
     (\<exists>pre post. s = pre @ r @ post \<and> list_all isWhiteSpace pre \<and> list_all isWhiteSpace post
        \<and> trimmed r)"

text \<open>The texts one after the other, each but the first preceded by \<open>sep\<close>.\<close>

definition joined :: "jsstring \<Rightarrow> jsstring list \<Rightarrow> jsstring" where
  "joined sep xs = (case xs of [] \<Rightarrow> [] | x # rest \<Rightarrow> x @ concat (map (\<lambda>y. sep @ y) rest))"

text \<open>The texts of the parts of a content array that are tagged \<open>text\<close>, in order.\<close>

definition textsOf :: "ContentPart list \<Rightarrow> jsstring list" where
  "textsOf parts =
     concat (map (\<lambda>c. if part_type c = Some (js ''text'')
                       then (case part_text c of None \<Rightarrow> [] | Some t \<Rightarrow> [t]) else []) parts)"

text \<open>
  More sample data. A terminal list of three messages: an assistant message with a
  string, a later one with two text parts around an image, and a user message. A text
  delta; a stream of white space only and a stream with white space around its text,
  both after the prompt was acknowledged. A child that exits, a hook error and a line
  \<open>null\<close>, each before and after the acknowledgment.
\<close>

definition draftMsg :: message where
  "draftMsg = assistantMsg 1 1 0 (StringContent (js ''draft''))"

definition answerMsg :: message where
  "answerMsg =
     \<lparr>role = Some (js ''assistant''), m_usage = None,
      m_content = ArrayContent
        [\<lparr>part_type = Some (js ''text''), part_text = Some (js '' Answer:'')\<rparr>,
         \<lparr>part_type = Some (js ''image''), part_text = None\<rparr>,
         \<lparr>part_type = Some (js ''text''), part_text = Some (js ''42 '')\<rparr>],
      errorMessage = None\<rparr>"

definition userMsg :: message where
  "userMsg =
     \<lparr>role = Some (js ''user''), m_usage = None, m_content = StringContent (js ''thanks''),
      errorMessage = None\<rparr>"

definition terminalList :: "message list" where
  "terminalList = [draftMsg, answerMsg, userMsg]"

definition textDelta :: "jsstring \<Rightarrow> line" where
  "textDelta s = Json (MessageUpdate (Some (TextDelta s)))"

definition blankStream :: "(int \<times> occurrence) list" where
  "blankStream = acked @ [(3, Data [textDelta [32], textDelta [10]])]"

definition paddedStream :: "(int \<times> occurrence) list" where
  "paddedStream =
     acked @ [(3, Data [textDelta (js '' Hel'')]), (4, Data [textDelta (js ''lo '' @ [10])])]"

definition earlyExit :: "(int \<times> occurrence) list" where
  "earlyExit = [(1, Exit)]"

definition earlyHookError :: "(int \<times> occurrence) list" where
  "earlyHookError = [(1, Data [ack 1]), (2, Data [Json (HookError (Some (js ''boom'')))])]"

definition nullLine :: "(int \<times> occurrence) list" where
  "nullLine = acked @ [(3, Data [JsonNull])]"

definition childExit :: "(int \<times> occurrence) list" where
  "childExit = acked @ [(3, Exit)]"

text \<open>
  An occurrence with protocol activity in it; a stretch of time with none; and a trace in
  which every occurrence comes less than \<open>T\<close> after the last one with activity, or after
  \<open>since\<close> when there was none yet.
\<close>

definition hasActivity :: "occurrence \<Rightarrow> bool" where
  "hasActivity x = (case x of Data ls \<Rightarrow> list_ex isActivityLine ls | _ \<Rightarrow> False)"

definition quiet :: "(int \<times> occurrence) list \<Rightarrow> bool" where
  "quiet trace = list_all (\<lambda>ev. \<not> hasActivity (snd ev)) trace"

fun paced :: "int \<Rightarrow> int \<Rightarrow> (int \<times> occurrence) list \<Rightarrow> bool" where
  "paced T since [] = True"
| "paced T since (ev # rest) =
     (fst ev < since + T \<and> paced T (if hasActivity (snd ev) then fst ev else since) rest)"

definition notAfter :: "int \<Rightarrow> (int \<times> occurrence) list \<Rightarrow> bool" where
  "notAfter a trace = list_all (\<lambda>ev. fst ev \<le> a) trace"

text \<open>
  The due time of the armed timer against the pace of the trace: at least \<open>T\<close> after the
  last activity (\<open>pacedInv\<close>), at most \<open>T\<close> after the time \<open>a\<close> (\<open>boundInv\<close>).
\<close>

definition pacedInv :: "int \<Rightarrow> int \<Rightarrow> outcome \<Rightarrow> bool" where
  "pacedInv T since oc =
     (case oc of
        Running ph st w \<Rightarrow>
          timeout st = T
          \<and> (case timeoutHandle st of None \<Rightarrow> False | Some (d, e) \<Rightarrow> since + T \<le> d)
      | Returned r st w \<Rightarrow> timeoutPromise st = Pending
      | Crashed e st w \<Rightarrow> True)"

definition boundInv :: "int \<Rightarrow> int \<Rightarrow> outcome \<Rightarrow> bool" where
  "boundInv T a oc =
     (case oc of
        Running ph st w \<Rightarrow>
          timeout st = T
          \<and> (case timeoutHandle st of None \<Rightarrow> False | Some (d, e) \<Rightarrow> d \<le> a + T)
      | Returned r st w \<Rightarrow> True
      | Crashed e st w \<Rightarrow> True)"

text \<open>
  A tool event, a turn that sees one every five time units, and a turn whose prompt is
  acknowledged at time 6 with what follows it.
\<close>

definition toolStart :: line where
  "toolStart = Json (ToolExecutionStart (Some (js ''read'')) (js ''{}''))"

definition busy :: "(int \<times> occurrence) list" where
  "busy = acked @ [(7, Data [toolStart]), (12, Data [toolStart]), (17, Data [toolStart]),
                   (22, Data [toolStart])]"

definition lateAck :: "(int \<times> occurrence) list" where
  "lateAck = [(5, Data [ack 1]), (6, Data [ack 2])]"

definition afterLateAck :: "(int \<times> occurrence) list" where
  "afterLateAck = [(11, Data [toolStart]), (16, Data [toolStart])]"

definition atOnce :: "(int \<times> occurrence) list" where
  "atOnce = [(0, Data [ack 1]), (0, Data [ack 2]), (0, Data [toolStart]), (1, Tick)]"

text \<open>A \<open>start\<close> whose name is the empty string, and one whose name has a dot in it.\<close>

definition emptyNameOptions :: StartOptions where
  "emptyNameOptions = \<lparr>so_model = js ''p:m'', so_thinking = None, so_tools = None,
                        so_name = Some []\<rparr>"

definition dottedOptions :: StartOptions where
  "dottedOptions = \<lparr>so_model = js ''p:m'', so_thinking = None, so_tools = None,
                     so_name = Some (js ''a.b'')\<rparr>"

text \<open>A name of 65 letters: it matches the pattern and is too long.\<close>

definition longName :: jsstring where
  "longName = replicate 65 97"

section \<open>The session store\<close>

lemma getSessionInfoPath_eq:
  "getSessionInfoPath sid w = (infoPathOf sid, mkdirSync sessionsDir w)"
  by (simp add: getSessionInfoPath_def getSessionDir_def infoPathOf_def sessionsDir_def Let_def)

lemma getSessionFilePath_eq:
  "getSessionFilePath sid w = (filePathOf sid, mkdirSync sessionsDir w)"
  by (simp add: getSessionFilePath_def getSessionDir_def filePathOf_def sessionsDir_def Let_def)

lemma infoPathOf_inj: "infoPathOf a = infoPathOf b \<longleftrightarrow> a = b"
  by (simp add: infoPathOf_def path_join_def)

lemma info_neq_file: "infoPathOf a \<noteq> filePathOf b"
proof
  assume "infoPathOf a = filePathOf b"
  then have "a @ js ''.info.json'' = b @ js ''.jsonl''"
    by (simp add: infoPathOf_def filePathOf_def path_join_def)
  then have "last (a @ js ''.info.json'') = last (b @ js ''.jsonl'')" by simp
  then show False by (simp add: js_def)
qed

lemma split_on_length: "length (split_on sep s) = Suc (length (filter (\<lambda>c. c = sep) s))"
  by (induction s) auto

lemma split_on_lt2: "length (split_on sep s) < 2 \<longleftrightarrow> sep \<notin> set s"
  by (simp add: split_on_length filter_empty_conv) metis

lemma files_mkdirSync: "files (mkdirSync d w) = files w"
  by (simp add: mkdirSync_def)

lemma saveSessionInfo_files:
  "files (saveSessionInfo info w) = (files w)(infoPathOf (info_id info) \<mapsto> InfoJson info)"
  by (simp add: saveSessionInfo_def getSessionInfoPath_eq writeFileSync_def files_mkdirSync)

lemma saveSessionInfo_dirs:
  "dirs (saveSessionInfo info w) = insert sessionsDir (dirs w)"
  by (simp add: saveSessionInfo_def getSessionInfoPath_eq writeFileSync_def mkdirSync_def)

lemma loadSessionInfo_invalid:
  "\<not> matchesIdPattern sid \<Longrightarrow> loadSessionInfo sid w = (Inl (InvalidSessionId sid), w)"
  by (simp add: loadSessionInfo_def validateSessionId_def)

lemma loadSessionInfo_files: "files (snd (loadSessionInfo sid w)) = files w"
  by (simp add: loadSessionInfo_def validateSessionId_def getSessionInfoPath_eq existsSync_def
      readFileSync_def files_mkdirSync split: option.splits sum.splits)

lemma loadSessionInfo_dirs_sub:
  "dirs (snd (loadSessionInfo sid w)) \<subseteq> insert sessionsDir (dirs w)"
  by (auto simp add: loadSessionInfo_def validateSessionId_def getSessionInfoPath_eq
      existsSync_def readFileSync_def mkdirSync_def split: option.splits sum.splits)

lemma loadSessionInfo_found:
  "matchesIdPattern sid \<Longrightarrow> files w (infoPathOf sid) = Some (InfoJson info) \<Longrightarrow>
   fst (loadSessionInfo sid w) = Inr info"
  by (simp add: loadSessionInfo_def validateSessionId_def getSessionInfoPath_eq existsSync_def
      readFileSync_def files_mkdirSync parseSessionInfo_def)

lemma loadSessionInfo_missing:
  "matchesIdPattern sid \<Longrightarrow> files w (infoPathOf sid) = None \<Longrightarrow>
   fst (loadSessionInfo sid w) = Inl (SessionNotFound sid)"
  by (simp add: loadSessionInfo_def validateSessionId_def getSessionInfoPath_eq existsSync_def
      readFileSync_def files_mkdirSync parseSessionInfo_def)

lemma closeSession_found:
  "matchesIdPattern sid \<Longrightarrow> files w (infoPathOf sid) = Some (InfoJson info) \<Longrightarrow>
   fst (closeSession now sid w) = Inr () \<and>
   files (snd (closeSession now sid w)) =
     (files w)(infoPathOf (info_id info) \<mapsto>
        InfoJson (info\<lparr>status := Some (js ''closed''), closedAt := Some now\<rparr>))"
  using loadSessionInfo_found [of sid w info] loadSessionInfo_files [of sid w]
  by (simp add: closeSession_def validateSessionId_def saveSessionInfo_files
      split: prod.splits sum.splits) (metis fst_conv snd_conv sum.inject(2) Inl_Inr_False)

lemma closeSession_files_error:
  "fst (closeSession now sid w) \<noteq> Inr () \<Longrightarrow> files (snd (closeSession now sid w)) = files w"
  using loadSessionInfo_files [of sid w]
  by (auto simp add: closeSession_def validateSessionId_def split: prod.splits sum.splits if_splits)

lemma closeSession_invalid:
  "\<not> matchesIdPattern sid \<Longrightarrow> closeSession now sid w = (Inl (InvalidSessionId sid), w)"
  by (simp add: closeSession_def validateSessionId_def)

lemma purgeSession_valid:
  "matchesIdPattern sid \<Longrightarrow>
   fst (purgeSession sid w) = Inr () \<and>
   files (snd (purgeSession sid w)) = (files w)(infoPathOf sid := None, filePathOf sid := None) \<and>
   dirs (snd (purgeSession sid w)) = insert sessionsDir (dirs w)"
  by (auto simp add: purgeSession_def validateSessionId_def getSessionInfoPath_eq
      getSessionFilePath_eq existsSync_def unlinkSync_def mkdirSync_def info_neq_file
      split: prod.splits sum.splits if_splits)

lemma purgeSession_invalid:
  "\<not> matchesIdPattern sid \<Longrightarrow> purgeSession sid w = (Inl (InvalidSessionId sid), w)"
  by (simp add: purgeSession_def validateSessionId_def)

lemma cmdStart_noname:
  "58 \<in> set (so_model options) \<Longrightarrow> \<not> truthy (so_name options) \<Longrightarrow>
   cmdStart options uuid now w =
     (Inr uuid,
      saveSessionInfo
        \<lparr>info_id = uuid, info_model = so_model options,
         provider = hd (split_on 58 (so_model options)),
         modelId = join_with (js '':'') (tl (split_on 58 (so_model options))),
         thinking = so_thinking options,
         tools = (if truthy (so_tools options) then the (so_tools options) else DEFAULT_TOOLS),
         sessionFile = filePathOf uuid, createdAt = now, status = None, closedAt = None\<rparr>
        (mkdirSync sessionsDir w))"
  by (simp add: cmdStart_def Let_def split_on_lt2 getSessionFilePath_eq)

lemma cmdStart_model_error:
  "(fst (cmdStart options uuid now w) = Inl (InvalidModelFormat m)) =
   (58 \<notin> set (so_model options) \<and> m = so_model options)"
  by (auto simp add: cmdStart_def Let_def split_on_lt2 validateSessionName_def
      getSessionInfoPath_eq getSessionFilePath_eq existsSync_def
      split: sum.splits prod.splits if_splits)

text \<open>
  C10. The model string is rejected for its format exactly when it holds no colon. In
  particular \<open>"p:"\<close> and \<open>":m"\<close> are accepted: \<open>cmdStart\<close> succeeds on them and the record it
  saves has the empty string as \<open>modelId\<close>, respectively as \<open>provider\<close>.
\<close>

theorem model_format_only_needs_colon:
  "(fst (cmdStart options uuid now w) = Inl (InvalidModelFormat (so_model options)))
     = (58 \<notin> set (so_model options))
   \<and> fst (cmdStart \<lparr>so_model = js ''p:'', so_thinking = th, so_tools = tls, so_name = None\<rparr>
            uuid now w) = Inr uuid
   \<and> map_option (\<lambda>r. (provider r, modelId r))
       (persisted (snd (cmdStart \<lparr>so_model = js ''p:'', so_thinking = th, so_tools = tls,
                                  so_name = None\<rparr> uuid now w)) uuid) = Some (js ''p'', [])
   \<and> fst (cmdStart \<lparr>so_model = js '':m'', so_thinking = th, so_tools = tls, so_name = None\<rparr>
            uuid now w) = Inr uuid
   \<and> map_option (\<lambda>r. (provider r, modelId r))
       (persisted (snd (cmdStart \<lparr>so_model = js '':m'', so_thinking = th, so_tools = tls,
                                  so_name = None\<rparr> uuid now w)) uuid) = Some ([], js ''m'')"
proof -
  have a: "(58::jschar) \<in> set (js ''p:'')" by (simp add: js_def)
  have b: "(58::jschar) \<in> set (js '':m'')" by (simp add: js_def)
  have sa: "split_on 58 (js ''p:'') = [js ''p'', []]" by (simp add: js_def)
  have sb: "split_on 58 (js '':m'') = [[], js ''m'']" by (simp add: js_def)
  have n: "\<not> truthy None" by (simp add: truthy_def)
  show ?thesis
    using cmdStart_model_error [of options uuid now w "so_model options"]
    by (simp add: cmdStart_noname a b n sa sb persisted_def saveSessionInfo_files)
qed

lemma abc_valid: "matchesIdPattern (js ''abc'')"
  by (simp add: matchesIdPattern_def js_def isIdChar_def)

text \<open>
  C9. On every id that matches the pattern, \<open>purge\<close> succeeds whatever the store holds,
  leaves neither the metadata file nor the transcript and touches no other file; a
  second \<open>purge\<close> succeeds as well and leaves the files and directories as the first did.
\<close>

theorem purge_idempotent_total:
  assumes "matchesIdPattern sid"
  shows "fst (cmdPurge sid w) = Inr ()
       \<and> files (snd (cmdPurge sid w)) = (files w)(infoPathOf sid := None, filePathOf sid := None)
       \<and> fst (cmdPurge sid (snd (cmdPurge sid w))) = Inr ()
       \<and> files (snd (cmdPurge sid (snd (cmdPurge sid w)))) = files (snd (cmdPurge sid w))
       \<and> dirs (snd (cmdPurge sid (snd (cmdPurge sid w)))) = dirs (snd (cmdPurge sid w))"
  using purgeSession_valid [OF assms, of w]
    purgeSession_valid [OF assms, of "snd (purgeSession sid w)"]
  by (simp add: cmdPurge_def)

theorem purge_idempotent_total_witness:
  "matchesIdPattern (js ''abc'')
   \<and> fst (cmdPurge (js ''abc'') storedWorld) = Inr ()
   \<and> files (snd (cmdPurge (js ''abc'') storedWorld)) = Map.empty
   \<and> fst (cmdPurge (js ''abc'') emptyWorld) = Inr ()
   \<and> files (snd (cmdPurge (js ''abc'') emptyWorld)) = Map.empty"
  using purge_idempotent_total [OF abc_valid, of storedWorld]
    purge_idempotent_total [OF abc_valid, of emptyWorld]
  by (simp add: abc_valid storedWorld_def emptyWorld_def info_neq_file)

text \<open>
  C5, as stated, fails: the record \<open>cmdStart\<close> saves for the session \<open>abc\<close> has no \<open>status\<close>
  field at all, so it does not carry the value \<open>active\<close>.
\<close>

theorem start_status_counterexample:
  "fst (cmdStart \<lparr>so_model = js ''p:m'', so_thinking = None, so_tools = None,
                  so_name = Some (js ''abc'')\<rparr> (js ''u'') 7 emptyWorld) = Inr (js ''abc'')
   \<and> map_option status
        (persisted (snd (cmdStart \<lparr>so_model = js ''p:m'', so_thinking = None, so_tools = None,
                                   so_name = Some (js ''abc'')\<rparr> (js ''u'') 7 emptyWorld))
           (js ''abc'')) = Some None"
  by (simp add: cmdStart_def Let_def split_on_lt2 truthy_def validateSessionName_def abc_valid
      getSessionInfoPath_eq getSessionFilePath_eq existsSync_def emptyWorld_def mkdirSync_def
      persisted_def saveSessionInfo_files)
     (simp add: js_def)

lemma cmdStart_success:
  assumes "fst (cmdStart options uuid now w) = Inr sid"
  shows "\<exists>w'. snd (cmdStart options uuid now w) =
           saveSessionInfo
             \<lparr>info_id = sid, info_model = so_model options,
              provider = hd (split_on 58 (so_model options)),
              modelId = join_with (js '':'') (tl (split_on 58 (so_model options))),
              thinking = so_thinking options,
              tools = (if truthy (so_tools options) then the (so_tools options) else DEFAULT_TOOLS),
              sessionFile = filePathOf sid, createdAt = now, status = None, closedAt = None\<rparr> w'"
  using assms
  by (auto simp add: cmdStart_def Let_def getSessionFilePath_eq getSessionInfoPath_eq existsSync_def
      split: if_splits sum.splits prod.splits)

text \<open>
  C5, amended. After every successful \<open>start\<close> the record saved under the returned id
  carries that id and has neither a \<open>status\<close> nor a \<open>closedAt\<close> field; the listing derives
  the state \<open>active\<close> for it, as for every record whose status is not \<open>closed\<close>.
\<close>

theorem start_persists_no_status:
  assumes "fst (cmdStart options uuid now w) = Inr sid"
  shows "map_option (\<lambda>r. (info_id r, status r, closedAt r, listStatus r))
           (persisted (snd (cmdStart options uuid now w)) sid)
         = Some (sid, None, None, js ''active'')"
proof -
  from cmdStart_success [OF assms] obtain w' r where
    "snd (cmdStart options uuid now w) = saveSessionInfo r w'" and "info_id r = sid"
    and "status r = None" and "closedAt r = None"
    by (metis SessionInfo.select_convs(1,9,10))
  then show ?thesis
    by (simp add: persisted_def saveSessionInfo_files listStatus_def)
qed


lemma colon_pm: "(58::jschar) \<in> set (js ''p:m'')"
  by (simp add: js_def)

lemma abc_name_ok: "validateSessionName (js ''abc'') = Inr ()"
  by (simp add: validateSessionName_def abc_valid) (simp add: js_def)

lemma cmdStart_abc_empty: "fst (cmdStart abcOptions (js ''u'') 7 emptyWorld) = Inr (js ''abc'')"
  by (simp add: cmdStart_def Let_def split_on_lt2 truthy_def abc_name_ok colon_pm abcOptions_def
      getSessionInfoPath_eq getSessionFilePath_eq existsSync_def emptyWorld_def mkdirSync_def)
     (simp add: js_def)

theorem start_persists_no_status_witness:
  "fst (cmdStart abcOptions (js ''u'') 7 emptyWorld) = Inr (js ''abc'')
   \<and> map_option (\<lambda>r. (info_id r, status r, closedAt r, listStatus r))
        (persisted (snd (cmdStart abcOptions (js ''u'') 7 emptyWorld)) (js ''abc''))
      = Some (js ''abc'', None, None, js ''active'')"
  using start_persists_no_status [OF cmdStart_abc_empty] cmdStart_abc_empty by simp

lemma cmdStart_collision:
  assumes "58 \<in> set (so_model options)" and "so_name options = Some name"
    and "matchesIdPattern name" and "length name \<le> 64"
    and "files w (infoPathOf name) \<noteq> None"
  shows "fst (cmdStart options uuid now w) = Inl (SessionAlreadyExists name)"
    and "files (snd (cmdStart options uuid now w)) = files w"
    and "dirs (snd (cmdStart options uuid now w)) = insert sessionsDir (dirs w)"
proof -
  have ne: "name \<noteq> []" using assms(3) by (simp add: matchesIdPattern_def)
  show "fst (cmdStart options uuid now w) = Inl (SessionAlreadyExists name)"
    using assms ne
    by (auto simp add: cmdStart_def Let_def split_on_lt2 truthy_def validateSessionName_def
        getSessionInfoPath_eq existsSync_def files_mkdirSync)
  show "files (snd (cmdStart options uuid now w)) = files w"
    using assms ne
    by (auto simp add: cmdStart_def Let_def split_on_lt2 truthy_def validateSessionName_def
        getSessionInfoPath_eq existsSync_def files_mkdirSync)
  show "dirs (snd (cmdStart options uuid now w)) = insert sessionsDir (dirs w)"
    using assms ne
    by (auto simp add: cmdStart_def Let_def split_on_lt2 truthy_def validateSessionName_def
        getSessionInfoPath_eq existsSync_def mkdirSync_def)
qed

text \<open>
  C8. With a well-formed model string and a valid name for which a metadata file exists,
  \<open>start\<close> fails with the collision error and leaves every file as it was. The check
  belongs to the named path only: without a name, \<open>start\<close> succeeds and saves its record
  under the generated id whatever the store already holds there.
\<close>

theorem start_name_collision:
  "(58 \<in> set (so_model options) \<and> so_name options = Some name \<and> matchesIdPattern name
      \<and> length name \<le> 64 \<and> files w (infoPathOf name) \<noteq> None
    \<longrightarrow> fst (cmdStart options uuid now w) = Inl (SessionAlreadyExists name)
        \<and> files (snd (cmdStart options uuid now w)) = files w)
   \<and> (58 \<in> set (so_model options) \<and> \<not> truthy (so_name options)
    \<longrightarrow> fst (cmdStart options uuid now w) = Inr uuid
        \<and> map_option info_id (persisted (snd (cmdStart options uuid now w)) uuid) = Some uuid
        \<and> map_option createdAt (persisted (snd (cmdStart options uuid now w)) uuid) = Some now)"
  using cmdStart_collision(1,2) [of options name w uuid now]
  by (auto simp add: cmdStart_noname persisted_def saveSessionInfo_files)

lemma storedWorld_abc: "files storedWorld (infoPathOf (js ''abc'')) \<noteq> None"
  by (simp add: storedWorld_def info_neq_file)

theorem start_name_collision_witness:
  "fst (cmdStart abcOptions (js ''u'') 7 storedWorld) = Inl (SessionAlreadyExists (js ''abc''))
   \<and> files (snd (cmdStart abcOptions (js ''u'') 7 storedWorld)) = files storedWorld
   \<and> fst (cmdStart (abcOptions\<lparr>so_name := None\<rparr>) (js ''abc'') 7 storedWorld) = Inr (js ''abc'')
   \<and> map_option createdAt
        (persisted (snd (cmdStart (abcOptions\<lparr>so_name := None\<rparr>) (js ''abc'') 7 storedWorld))
           (js ''abc'')) = Some 7
   \<and> map_option createdAt (persisted storedWorld (js ''abc'')) = Some 5"
proof -
  have l: "length (js ''abc'') \<le> 64" by (simp add: js_def)
  have n: "so_name abcOptions = Some (js ''abc'')" "so_model abcOptions = js ''p:m''"
    by (simp_all add: abcOptions_def)
  have p: "map_option createdAt (persisted storedWorld (js ''abc'')) = Some 5"
    by (simp add: persisted_def storedWorld_def abcInfo_def info_neq_file)
  show ?thesis
    using start_name_collision [of abcOptions "js ''abc''" storedWorld "js ''u''" 7]
      start_name_collision [of "abcOptions\<lparr>so_name := None\<rparr>" "js ''abc''" storedWorld "js ''abc''" 7]
    by (simp add: n l p colon_pm abc_valid storedWorld_abc truthy_def)
qed


lemma closeSession_dirs:
  "fst (closeSession now sid w) = Inr () \<Longrightarrow>
   dirs (snd (closeSession now sid w)) = insert sessionsDir (dirs w)"
  using loadSessionInfo_dirs_sub [of sid w]
  by (auto simp add: closeSession_def saveSessionInfo_dirs loadSessionInfo_def validateSessionId_def
      getSessionInfoPath_eq existsSync_def readFileSync_def mkdirSync_def
      split: sum.splits prod.splits if_splits option.splits)

lemma closeSession_missing:
  "matchesIdPattern sid \<Longrightarrow> files w (infoPathOf sid) = None \<Longrightarrow>
   fst (closeSession now sid w) = Inl (SessionNotFound sid)"
  by (simp add: closeSession_def loadSessionInfo_def validateSessionId_def getSessionInfoPath_eq
      existsSync_def files_mkdirSync)

text \<open>
  C6. For a session whose record is stored under its own id, \<open>end\<close> succeeds and rewrites
  the record with status \<open>closed\<close> and \<open>closedAt\<close> set, all other fields as they were. A
  second \<open>end\<close> succeeds too and leaves the files exactly as a single \<open>end\<close> at that time
  does: the same record with the same fields, \<open>closedAt\<close> holding the time of the last
  call. No file is created or deleted, no other file changes, and an \<open>end\<close> that fails
  changes no file.
\<close>

theorem end_idempotent_in_effect:
  "(matchesIdPattern sid \<and> files w (infoPathOf sid) = Some (InfoJson info) \<and> info_id info = sid
    \<longrightarrow> fst (cmdEnd t1 sid w) = Inr ()
        \<and> files (snd (cmdEnd t1 sid w)) = (files w)(infoPathOf sid \<mapsto> InfoJson (closedAs info t1))
        \<and> fst (cmdEnd t2 sid (snd (cmdEnd t1 sid w))) = Inr ()
        \<and> files (snd (cmdEnd t2 sid (snd (cmdEnd t1 sid w))))
            = (files w)(infoPathOf sid \<mapsto> InfoJson (closedAs info t2))
        \<and> files (snd (cmdEnd t2 sid (snd (cmdEnd t1 sid w)))) = files (snd (cmdEnd t2 sid w))
        \<and> dirs (snd (cmdEnd t2 sid (snd (cmdEnd t1 sid w)))) = dirs (snd (cmdEnd t1 sid w))
        \<and> dom (files (snd (cmdEnd t2 sid (snd (cmdEnd t1 sid w))))) = dom (files w))
   \<and> (fst (cmdEnd t1 sid w) \<noteq> Inr () \<longrightarrow> files (snd (cmdEnd t1 sid w)) = files w)"
proof -
  have "fst (cmdEnd t1 sid w) \<noteq> Inr () \<longrightarrow> files (snd (cmdEnd t1 sid w)) = files w"
    by (simp add: cmdEnd_def closeSession_files_error)
  moreover
  { assume v: "matchesIdPattern sid" and f: "files w (infoPathOf sid) = Some (InfoJson info)"
      and i: "info_id info = sid"
    let ?w1 = "snd (closeSession t1 sid w)"
    have c1: "fst (closeSession t1 sid w) = Inr ()"
      "files ?w1 = (files w)(infoPathOf sid \<mapsto> InfoJson (closedAs info t1))"
      using closeSession_found [OF v f, of t1] i by (simp_all add: closedAs_def)
    have f1: "files ?w1 (infoPathOf sid) = Some (InfoJson (closedAs info t1))"
      by (simp add: c1)
    have c2: "fst (closeSession t2 sid ?w1) = Inr ()"
      "files (snd (closeSession t2 sid ?w1)) = (files w)(infoPathOf sid \<mapsto> InfoJson (closedAs info t2))"
      using closeSession_found [OF v f1, of t2] i by (simp_all add: closedAs_def c1)
    have c3: "files (snd (closeSession t2 sid w)) = (files w)(infoPathOf sid \<mapsto> InfoJson (closedAs info t2))"
      using closeSession_found [OF v f, of t2] i by (simp add: closedAs_def)
    have d: "dirs (snd (closeSession t2 sid ?w1)) = dirs ?w1"
      using closeSession_dirs [OF c1(1)] closeSession_dirs [OF c2(1)] by simp
    have dm: "dom (files (snd (closeSession t2 sid ?w1))) = dom (files w)"
      using f by (auto simp add: c2)
    have "fst (cmdEnd t1 sid w) = Inr ()
        \<and> files (snd (cmdEnd t1 sid w)) = (files w)(infoPathOf sid \<mapsto> InfoJson (closedAs info t1))
        \<and> fst (cmdEnd t2 sid (snd (cmdEnd t1 sid w))) = Inr ()
        \<and> files (snd (cmdEnd t2 sid (snd (cmdEnd t1 sid w))))
            = (files w)(infoPathOf sid \<mapsto> InfoJson (closedAs info t2))
        \<and> files (snd (cmdEnd t2 sid (snd (cmdEnd t1 sid w)))) = files (snd (cmdEnd t2 sid w))
        \<and> dirs (snd (cmdEnd t2 sid (snd (cmdEnd t1 sid w)))) = dirs (snd (cmdEnd t1 sid w))
        \<and> dom (files (snd (cmdEnd t2 sid (snd (cmdEnd t1 sid w))))) = dom (files w)"
      unfolding cmdEnd_def using c1 c2 c3 d dm by simp }
  ultimately show ?thesis by blast
qed

lemma storedWorld_info: "files storedWorld (infoPathOf (js ''abc'')) = Some (InfoJson abcInfo)"
  by (simp add: storedWorld_def info_neq_file)

lemma xyz_valid: "matchesIdPattern (js ''xyz'')"
  by (simp add: matchesIdPattern_def js_def isIdChar_def)

theorem end_idempotent_in_effect_witness:
  "fst (cmdEnd 10 (js ''abc'') storedWorld) = Inr ()
   \<and> map_option (\<lambda>r. (status r, closedAt r))
        (persisted (snd (cmdEnd 20 (js ''abc'') (snd (cmdEnd 10 (js ''abc'') storedWorld))))
           (js ''abc'')) = Some (Some (js ''closed''), Some 20)
   \<and> dom (files (snd (cmdEnd 20 (js ''abc'') (snd (cmdEnd 10 (js ''abc'') storedWorld)))))
      = dom (files storedWorld)
   \<and> fst (cmdEnd 10 (js ''xyz'') storedWorld) = Inl (SessionNotFound (js ''xyz''))
   \<and> files (snd (cmdEnd 10 (js ''xyz'') storedWorld)) = files storedWorld"
proof -
  have x: "files storedWorld (infoPathOf (js ''xyz'')) = None"
    by (simp add: storedWorld_def info_neq_file infoPathOf_inj) (simp add: js_def)
  have nf: "fst (cmdEnd 10 (js ''xyz'') storedWorld) = Inl (SessionNotFound (js ''xyz''))"
    using closeSession_missing [OF xyz_valid x] by (simp add: cmdEnd_def)
  have i: "info_id abcInfo = js ''abc''" by (simp add: abcInfo_def)
  note T = conjunct1 [OF end_idempotent_in_effect [of "js ''abc''" storedWorld abcInfo 10 20],
      THEN mp, OF conjI [OF abc_valid conjI [OF storedWorld_info i]]]
  note U = conjunct2 [OF end_idempotent_in_effect [of "js ''xyz''" storedWorld abcInfo 10 20],
      THEN mp]
  have a: "fst (cmdEnd 10 (js ''abc'') storedWorld) = Inr ()" using T by blast
  have b: "files (snd (cmdEnd 20 (js ''abc'') (snd (cmdEnd 10 (js ''abc'') storedWorld))))
            = (files storedWorld)(infoPathOf (js ''abc'') \<mapsto> InfoJson (closedAs abcInfo 20))"
    using T by blast
  have c: "dom (files (snd (cmdEnd 20 (js ''abc'') (snd (cmdEnd 10 (js ''abc'') storedWorld)))))
      = dom (files storedWorld)" using T by blast
  have d: "files (snd (cmdEnd 10 (js ''xyz'') storedWorld)) = files storedWorld"
    using U nf by simp
  have e: "map_option (\<lambda>r. (status r, closedAt r))
        (persisted (snd (cmdEnd 20 (js ''abc'') (snd (cmdEnd 10 (js ''abc'') storedWorld))))
           (js ''abc'')) = Some (Some (js ''closed''), Some 20)"
    by (simp add: persisted_def b closedAs_def)
  show ?thesis using a c d e nf by blast
qed

section \<open>The turn\<close>

lemma addUsage_sel:
  "u_input (addUsage u m) = u_input u + (if isAssistant m then msgInput m else 0)"
  "u_output (addUsage u m) = u_output u + (if isAssistant m then msgOutput m else 0)"
  "u_cost (addUsage u m) = u_cost u + (if isAssistant m then msgCost m else 0)"
  by (simp_all add: addUsage_def isAssistant_def msgInput_def msgOutput_def msgCost_def Let_def
        orZero_def split: option.splits)

lemma foldl_addUsage:
  "foldl addUsage u msgs =
     \<lparr>u_input = u_input u + sum_list (map msgInput (filter isAssistant msgs)),
      u_output = u_output u + sum_list (map msgOutput (filter isAssistant msgs)),
      u_cost = u_cost u + sum_list (map msgCost (filter isAssistant msgs))\<rparr>"
proof (induction msgs arbitrary: u)
  case Nil
  show ?case by simp
next
  case (Cons m ms)
  have "foldl addUsage u (m # ms) = foldl addUsage (addUsage u m) ms" by simp
  also have "\<dots> =
     \<lparr>u_input = u_input (addUsage u m) + sum_list (map msgInput (filter isAssistant ms)),
      u_output = u_output (addUsage u m) + sum_list (map msgOutput (filter isAssistant ms)),
      u_cost = u_cost (addUsage u m) + sum_list (map msgCost (filter isAssistant ms))\<rparr>"
    by (rule Cons)
  also have "\<dots> =
     \<lparr>u_input = u_input u + sum_list (map msgInput (filter isAssistant (m # ms))),
      u_output = u_output u + sum_list (map msgOutput (filter isAssistant (m # ms))),
      u_cost = u_cost u + sum_list (map msgCost (filter isAssistant (m # ms)))\<rparr>"
    by (simp add: addUsage_sel add.assoc)
  finally show ?case .
qed

lemma usage_on_agent_end: "usage (on_agent_end msgs st) = Some (totalUsage msgs)"
  by (simp add: on_agent_end_def Let_def resolveDone_def foldl_addUsage totalUsage_def)

lemma agentMessages_on_agent_end: "agentMessages (on_agent_end msgs st) = msgs"
  by (simp add: on_agent_end_def Let_def resolveDone_def)

lemmas event_splits = event.splits option.splits assistantMessageEvent.splits

lemmas handler_defs = on_event_def on_response_def resetTimeout_def rejectDone_def Let_def

text \<open>What the line callback leaves alone.\<close>

lemma on_event_frame:
  "killed (fst (on_event now ev (st, w))) = killed st"
  "rlOpen (fst (on_event now ev (st, w))) = rlOpen st"
  "stdinOpen (fst (on_event now ev (st, w))) = stdinOpen st"
  "timeoutPromise (fst (on_event now ev (st, w))) = timeoutPromise st"
  "timeout (fst (on_event now ev (st, w))) = timeout st"
  by (simp_all add: handler_defs on_agent_end_def resolveDone_def split: event_splits)

lemma on_event_timeoutHandle:
  "timeoutHandle (fst (on_event now ev (st, w))) =
     (if isActivity ev
      then Some (now + timerDelay (timeout st), TimeoutInactivity (nat (timeout st)))
      else timeoutHandle st)"
  by (simp add: handler_defs on_agent_end_def resolveDone_def isActivity_def
      split: event_splits)

lemma on_event_usageInv: "usageInv st \<Longrightarrow> usageInv (fst (on_event now ev (st, w)))"
  by (auto simp add: usageInv_def handler_defs rejectP_def usage_on_agent_end
      agentMessages_on_agent_end split: event_splits promise.splits)

lemma on_event_noTimeoutYet: "noTimeoutYet st \<Longrightarrow> noTimeoutYet (fst (on_event now ev (st, w)))"
  by (auto simp add: noTimeoutYet_def timedOut_def isTimeout_def handler_defs rejectP_def resolveP_def
      on_agent_end_def resolveDone_def split: event_splits promise.splits)

lemma on_event_turnInv: "turnInv st \<Longrightarrow> turnInv (fst (on_event now ev (st, w)))"
  by (simp add: turnInv_def on_event_frame on_event_usageInv on_event_noTimeoutYet
      on_event_timeoutHandle isTimeout_def)

lemma on_event_progress:
  "files w PROGRESS_FILE \<noteq> None \<Longrightarrow> files (snd (on_event now ev (st, w))) PROGRESS_FILE \<noteq> None"
  by (simp add: on_event_def writeProgress_def writeFileSync_def split: event_splits)

text \<open>The invariant of a turn through the lines of a chunk, thrown exception or not.\<close>

lemma on_lines_inv:
  "turnInv (fst sw) \<Longrightarrow> files (snd sw) PROGRESS_FILE \<noteq> None \<Longrightarrow>
   turnInv (fst (snd (on_lines now ls sw)))
   \<and> files (snd (snd (on_lines now ls sw))) PROGRESS_FILE \<noteq> None"
proof (induction ls arbitrary: sw)
  case Nil
  then show ?case by simp
next
  case (Cons l ls)
  obtain st w where sw: "sw = (st, w)" by (cases sw)
  show ?case
  proof (cases l)
    case (Json ev)
    have "turnInv (fst (on_event now ev sw))"
      "files (snd (on_event now ev sw)) PROGRESS_FILE \<noteq> None"
      using Cons.prems on_event_turnInv [of st now ev w] on_event_progress [of w now ev st]
      by (simp_all add: sw)
    then show ?thesis using Cons.IH [of "on_event now ev sw"] by (simp add: Json on_line_def)
  next
    case JsonNull
    then show ?thesis using Cons.prems by (simp add: on_line_def)
  next
    case NonJson
    then show ?thesis using Cons.prems Cons.IH [of sw] by (simp add: on_line_def)
  qed
qed

lemma files_clearProgress: "files (clearProgress w) PROGRESS_FILE = None"
  by (simp add: clearProgress_def existsSync_def unlinkSync_def)

lemma leave_eq:
  "leave r st w =
     Returned r (st\<lparr>timeoutHandle := None, rlOpen := False, stdinOpen := False,
                    killed := killed st @ [SIGTERM]\<rparr>) (clearProgress w)"
  by (simp add: leave_def cleanup_def Let_def)

lemma sendCommand_turnInv: "turnInv st \<Longrightarrow> turnInv (sendCommand c st)"
  by (simp add: turnInv_def sendCommand_def Let_def usageInv_def noTimeoutYet_def timedOut_def)

lemma resumeDone_outInv:
  "turnInv st \<Longrightarrow> files w PROGRESS_FILE \<noteq> None \<Longrightarrow> outInv (resumeDone st w)"
  by (auto simp add: resumeDone_def race_def leave_eq outInv_def returnedOk_def awaited_def
      turnInv_def usageInv_def noTimeoutYet_def timedOut_def files_clearProgress
      split: promise.splits)

lemma resumePrompt_outInv:
  "turnInv st \<Longrightarrow> files w PROGRESS_FILE \<noteq> None \<Longrightarrow> outInv (resumePrompt st w)"
  using resumeDone_outInv [of st w]
  by (auto simp add: resumePrompt_def race_def leave_eq outInv_def returnedOk_def awaited_def
      turnInv_def noTimeoutYet_def timedOut_def files_clearProgress
      split: promise.splits)

lemma resumeHandshake_outInv:
  "turnInv st \<Longrightarrow> files w PROGRESS_FILE \<noteq> None \<Longrightarrow> outInv (resumeHandshake st w)"
  using resumePrompt_outInv [OF sendCommand_turnInv, of st w "Prompt (t_message st)"]
  by (auto simp add: resumeHandshake_def race_def leave_eq outInv_def returnedOk_def awaited_def
      turnInv_def noTimeoutYet_def timedOut_def files_clearProgress
      split: promise.splits)

lemma resume_outInv:
  "turnInv st \<Longrightarrow> files w PROGRESS_FILE \<noteq> None \<Longrightarrow> outInv (resume ph st w)"
  by (cases ph) (simp_all add: resume_def resumeHandshake_outInv resumePrompt_outInv resumeDone_outInv)

lemma unhandledRejection_outInv: "outInv oc \<Longrightarrow> outInv (unhandledRejection oc)"
  by (cases oc) (auto simp add: unhandledRejection_def outInv_def split: promise.splits)

lemma unhandledRejection_Returned: "unhandledRejection (Returned r st w) = Returned r st w"
  by (simp add: unhandledRejection_def)

lemma on_exit_turnInv: "turnInv st \<Longrightarrow> turnInv (on_exit st)"
  by (auto simp add: on_exit_def rejectDone_def rejectP_def turnInv_def usageInv_def noTimeoutYet_def
      timedOut_def isTimeout_def split: promise.splits)

lemma timer_fires:
  assumes "turnInv st" and "awaited ph st = Pending" and "timerDue now st"
  shows "\<exists>d e st' w'. timeoutHandle st = Some (d, e) \<and> d \<le> now \<and> isTimeout e
           \<and> resume ph (fireTimer st) w = Returned (Inl e) st' w'
           \<and> returnedOk (Inl e) st' w'"
proof -
  from assms(1,3) obtain d e where h: "timeoutHandle st = Some (d, e)" "d \<le> now" "isTimeout e"
    by (auto simp add: turnInv_def timerDue_def split: option.splits)
  have p: "timeoutPromise st = Pending" using assms(1) by (simp add: turnInv_def)
  have "resume ph (fireTimer st) w =
          leave (Inl e) (st\<lparr>timeoutPromise := Rejected e, timeoutHandle := None\<rparr>) w"
    using assms(2) h p
    by (cases ph)
       (simp_all add: resume_def resumeHandshake_def resumePrompt_def resumeDone_def race_def
          fireTimer_def rejectP_def awaited_def)
  then show ?thesis
    using h assms(1)
    by (simp add: leave_eq returnedOk_def files_clearProgress turnInv_def)
qed

lemma step_outInv: "outInv oc \<Longrightarrow> outInv (step oc ev)"
proof (cases oc)
  case (Returned r st w)
  assume "outInv oc"
  then show ?thesis by (simp add: Returned step_def)
next
  case (Crashed e st w)
  assume "outInv oc"
  then show ?thesis by (simp add: Crashed step_def)
next
  case (Running ph st w)
  assume "outInv oc"
  then have inv: "turnInv st" and aw: "awaited ph st = Pending"
    and pf: "files w PROGRESS_FILE \<noteq> None"
    by (simp_all add: Running outInv_def)
  obtain now x where ev: "ev = (now, x)" by (cases ev)
  show ?thesis
  proof (cases "timerDue now st")
    case True
    from timer_fires [OF inv aw True, of w] show ?thesis
      by (auto simp add: Running ev step_def True outInv_def unhandledRejection_Returned)
  next
    case False
    show ?thesis
    proof (cases x)
      case (Data ls)
      obtain err st' w' where f: "on_lines now ls (st, w) = (err, st', w')"
        by (cases "on_lines now ls (st, w)") auto
      have i: "turnInv st'" "files w' PROGRESS_FILE \<noteq> None"
        using on_lines_inv [of "(st, w)" now ls] inv pf f by simp_all
      show ?thesis
      proof (cases err)
        case None
        then show ?thesis
          using i by (simp add: Running ev step_def False Data f resume_outInv
              unhandledRejection_outInv)
      next
        case (Some e)
        then show ?thesis
          using i by (simp add: Running ev step_def False Data f outInv_def)
      qed
    next
      case Exit
      then show ?thesis
        by (simp add: Running ev step_def False resume_outInv on_exit_turnInv inv pf
            unhandledRejection_outInv)
    next
      case Tick
      then show ?thesis
        using inv aw pf by (simp add: Running ev step_def False outInv_def)
    qed
  qed
qed

lemma foldl_step_outInv: "outInv oc \<Longrightarrow> outInv (foldl step oc trace)"
  by (induction trace arbitrary: oc) (simp_all add: step_outInv)

lemma startTurn_outInv: "outInv (startTurn msg info tmo now w)"
  by (simp add: startTurn_def Let_def)
     (rule resumeHandshake_outInv,
      simp add: turnInv_def sendCommand_def Let_def usageInv_def noTimeoutYet_def timedOut_def
        isTimeout_def,
      simp add: writeProgress_def writeFileSync_def)

lemma sendToAgent_outInv: "outInv (sendToAgent msg info tmo now trace w)"
  by (simp add: sendToAgent_def foldl_step_outInv startTurn_outInv)

lemma step_Returned: "step (Returned r st w) ev = Returned r st w"
  by (simp add: step_def)

lemma foldl_step_Returned: "foldl step (Returned r st w) trace = Returned r st w"
  by (induction trace) (simp_all add: step_Returned)

lemma step_Crashed: "step (Crashed e st w) ev = Crashed e st w"
  by (simp add: step_def)

lemma foldl_step_Crashed: "foldl step (Crashed e st w) trace = Crashed e st w"
  by (induction trace) (simp_all add: step_Crashed)

lemmas run_defs = sendToAgent_def startTurn_def Let_def resumeHandshake_def
      resumePrompt_def resumeDone_def resume_def race_def sendCommand_def step_def timerDue_def
      timerDelay_def on_line_def on_event_def unhandledRejection_def on_response_def
      on_agent_end_def resolveP_def resolveDone_def
      rejectP_def rejectDone_def resetTimeout_def on_exit_def fireTimer_def
      leave_def cleanup_def ack_def acked_def progressOf_def

lemma totalUsage_twoSteps: "totalUsage twoSteps = \<lparr>u_input = 30, u_output = 13, u_cost = 3 / 100\<rparr>"
  by (simp add: totalUsage_def twoSteps_def assistantMsg_def isAssistant_def msgInput_def
      msgOutput_def msgCost_def orZero_def)

lemma run_twoSteps:
  "\<exists>res st' w'. sendToAgent (js ''hi'') abcInfo 300000 0
        (acked @ [(3, Data [Json (AgentEnd twoSteps)])]) emptyWorld = Returned (Inr res) st' w'
      \<and> agentMessages st' = twoSteps"
  by (simp add: run_defs)

text \<open>
  C1. On \<open>agent_end\<close> the usage is the sum of \<open>input\<close>, \<open>output\<close> and \<open>cost.total\<close> over
  every message of the terminal list whose role is \<open>assistant\<close>, and that is the usage a
  successful \<open>sendToAgent\<close> returns. For the two messages with usage (10, 5, 0.01) and
  (20, 8, 0.02) it is (30, 13, 0.03).
\<close>

theorem usage_sums_every_assistant_message:
  "usage (on_agent_end msgs st) = Some (totalUsage msgs)
   \<and> on_line t (Json (AgentEnd msgs)) (st, w0) = Inr (on_agent_end msgs st, w0)
   \<and> (sendToAgent msg info tmo now trace w = Returned (Inr res) st' w'
        \<longrightarrow> r_usage res = Some (totalUsage (agentMessages st')))
   \<and> totalUsage twoSteps = \<lparr>u_input = 30, u_output = 13, u_cost = 3 / 100\<rparr>"
proof -
  have "sendToAgent msg info tmo now trace w = Returned (Inr res) st' w'
        \<longrightarrow> r_usage res = Some (totalUsage (agentMessages st'))"
    using sendToAgent_outInv [of msg info tmo now trace w]
    by (auto simp add: outInv_def returnedOk_def)
  then show ?thesis
    by (simp add: usage_on_agent_end totalUsage_twoSteps on_line_def on_event_def)
qed

theorem usage_sums_every_assistant_message_witness:
  "\<exists>res st' w'.
      sendToAgent (js ''hi'') abcInfo 300000 0
        (acked @ [(3, Data [Json (AgentEnd twoSteps)])]) emptyWorld = Returned (Inr res) st' w'
      \<and> r_usage res = Some \<lparr>u_input = 30, u_output = 13, u_cost = 3 / 100\<rparr>"
proof -
  from run_twoSteps obtain res st' w' where
    r: "sendToAgent (js ''hi'') abcInfo 300000 0
          (acked @ [(3, Data [Json (AgentEnd twoSteps)])]) emptyWorld = Returned (Inr res) st' w'"
    and m: "agentMessages st' = twoSteps" by blast
  have "r_usage res = Some (totalUsage (agentMessages st'))"
    using usage_sums_every_assistant_message
      [of "agentMessages st'" st' 0 emptyWorld "js ''hi''" abcInfo 300000 0
          "acked @ [(3, Data [Json (AgentEnd twoSteps)])]" emptyWorld res st' w'] r
    by blast
  then have "r_usage res = Some \<lparr>u_input = 30, u_output = 13, u_cost = 3 / 100\<rparr>"
    by (simp add: m totalUsage_twoSteps)
  with r show ?thesis by blast
qed

lemma dropWhile_all: "list_all P xs \<Longrightarrow> dropWhile P xs = []"
  by (induction xs) auto

lemma dropWhile_none: "xs \<noteq> [] \<Longrightarrow> \<not> P (hd xs) \<Longrightarrow> dropWhile P xs = xs"
  by (cases xs) auto

lemma last_dropWhile: "dropWhile P xs \<noteq> [] \<Longrightarrow> last (dropWhile P xs) = last xs"
  by (induction xs) (auto split: if_splits)

lemma trimmed_trim: "trimmed (trim s)"
proof (cases "trim s = []")
  case True
  then show ?thesis by (simp add: trimmed_def)
next
  case False
  let ?a = "dropWhile isWhiteSpace s"
  let ?b = "dropWhile isWhiteSpace (rev ?a)"
  have b: "?b \<noteq> []" using False by (simp add: trim_def)
  have a: "?a \<noteq> []"
  proof
    assume e: "?a = []"
    have "?b = []" unfolding e by simp
    with b show False by simp
  qed
  have "\<not> isWhiteSpace (hd ?b)" using b by (rule hd_dropWhile)
  then have l: "\<not> isWhiteSpace (last (trim s))" using b by (simp add: trim_def last_rev)
  have "last ?b = last (rev ?a)" using b by (rule last_dropWhile)
  also have "\<dots> = hd ?a" using a by (simp add: last_rev)
  finally have "hd (trim s) = hd ?a" using b by (simp add: trim_def hd_rev)
  moreover have "\<not> isWhiteSpace (hd ?a)" using a by (rule hd_dropWhile)
  ultimately show ?thesis using l by (simp add: trimmed_def)
qed

lemma trim_empty_iff: "(trim s = []) = list_all isWhiteSpace s"
proof
  assume t: "trim s = []"
  show "list_all isWhiteSpace s"
  proof (rule ccontr)
    assume "\<not> list_all isWhiteSpace s"
    then have a: "dropWhile isWhiteSpace s \<noteq> []" by (simp add: list_all_iff)
    then have "\<not> isWhiteSpace (hd (dropWhile isWhiteSpace s))" by (rule hd_dropWhile)
    moreover have "hd (dropWhile isWhiteSpace s) \<in> set (rev (dropWhile isWhiteSpace s))"
      using a by simp
    ultimately have "dropWhile isWhiteSpace (rev (dropWhile isWhiteSpace s)) \<noteq> []"
      by auto
    with t show False by (simp add: trim_def)
  qed
next
  assume "list_all isWhiteSpace s"
  then have e: "dropWhile isWhiteSpace s = []" by (rule dropWhile_all)
  show "trim s = []" unfolding trim_def e by simp
qed

lemma strips_trim: "strips (trim s) s"
proof -
  let ?a = "dropWhile isWhiteSpace s"
  let ?pre = "takeWhile isWhiteSpace s"
  let ?post = "rev (takeWhile isWhiteSpace (rev ?a))"
  have "?a = rev (takeWhile isWhiteSpace (rev ?a) @ dropWhile isWhiteSpace (rev ?a))"
    by (simp only: takeWhile_dropWhile_id rev_rev_ident)
  then have "?a = trim s @ ?post" by (simp only: rev_append trim_def)
  moreover have "s = ?pre @ ?a" by simp
  ultimately have "s = ?pre @ trim s @ ?post" by simp
  moreover have "list_all isWhiteSpace ?pre" by (simp add: list_all_iff) (meson set_takeWhileD)
  moreover have "list_all isWhiteSpace ?post" by (simp add: list_all_iff) (meson set_takeWhileD)
  ultimately show ?thesis unfolding strips_def using trimmed_trim by blast
qed

lemma strips_unique: "strips r s \<Longrightarrow> r = trim s"
proof -
  assume "strips r s"
  then obtain pre post where s: "s = pre @ r @ post" and p: "list_all isWhiteSpace pre"
    and q: "list_all isWhiteSpace post" and t: "trimmed r" unfolding strips_def by blast
  have d1: "dropWhile isWhiteSpace s = dropWhile isWhiteSpace (r @ post)"
    using p by (simp add: s list_all_iff dropWhile_append2)
  show ?thesis
  proof (cases "r = []")
    case True
    have e: "dropWhile isWhiteSpace s = []"
      unfolding d1 True by (simp only: append_Nil dropWhile_all [OF q])
    show ?thesis unfolding trim_def e True by simp
  next
    case False
    with t have h: "\<not> isWhiteSpace (hd r)" and l: "\<not> isWhiteSpace (last r)"
      by (simp_all add: trimmed_def)
    have "dropWhile isWhiteSpace (r @ post) = r @ post"
      using False h by (intro dropWhile_none) simp_all
    then have "rev (dropWhile isWhiteSpace s) = rev post @ rev r" by (simp add: d1)
    moreover have "dropWhile isWhiteSpace (rev post @ rev r) = dropWhile isWhiteSpace (rev r)"
      using q by (intro dropWhile_append2) (simp add: list_all_iff)
    moreover have "dropWhile isWhiteSpace (rev r) = rev r"
      using False l by (intro dropWhile_none) (simp_all add: hd_rev)
    ultimately show ?thesis by (simp add: trim_def)
  qed
qed

lemma join_with_joined: "join_with sep xs = joined sep xs"
  by (induction sep xs rule: join_with.induct) (simp_all add: joined_def)

lemma isWhiteSpace_units: "isWhiteSpace c = (c \<in> set whiteSpaceUnits)"
  apply (simp add: isWhiteSpace_def whiteSpaceUnits_def)
  apply (auto simp add: word_le_nat_alt word_unat_eq_iff)
  apply arith
  done

lemma lastAssistant_snoc:
  "lastAssistant (ms @ [x]) = (if isAssistant x then Some x else lastAssistant ms)"
  by (simp add: lastAssistant_def isAssistant_def)

lemma lastAssistant_Some:
  "lastAssistant msgs = Some m \<Longrightarrow>
   \<exists>pre post. msgs = pre @ m # post \<and> isAssistant m \<and> (\<forall>x\<in>set post. \<not> isAssistant x)"
proof (induction msgs rule: rev_induct)
  case Nil
  then show ?case by (simp add: lastAssistant_def)
next
  case (snoc x ms)
  show ?case
  proof (cases "isAssistant x")
    case True
    with snoc.prems have "m = x" by (simp add: lastAssistant_snoc)
    with True have "ms @ [x] = ms @ m # [] \<and> isAssistant m
        \<and> (\<forall>y\<in>set []. \<not> isAssistant y)" by simp
    then show ?thesis by blast
  next
    case False
    with snoc.prems have "lastAssistant ms = Some m" by (simp add: lastAssistant_snoc)
    from snoc.IH [OF this] obtain pre post where
      "ms = pre @ m # post" "isAssistant m" "\<forall>x\<in>set post. \<not> isAssistant x" by blast
    with False have "ms @ [x] = pre @ m # (post @ [x]) \<and> isAssistant m
        \<and> (\<forall>y\<in>set (post @ [x]). \<not> isAssistant y)" by auto
    then show ?thesis by blast
  qed
qed

lemma lastAssistant_None: "(lastAssistant msgs = None) = (\<forall>m\<in>set msgs. \<not> isAssistant m)"
  by (auto simp add: lastAssistant_def find_None_iff isAssistant_def)

lemma extract_array:
  "m_content m = ArrayContent parts \<Longrightarrow>
   extractTextFromMessage (Some m) = joined [10, 10] (textsOf parts)"
proof -
  have "map (\<lambda>c. the (part_text c))
          (filter (\<lambda>c. part_type c = Some (js ''text'') \<and> part_text c \<noteq> None) ps) = textsOf ps"
    for ps
    by (induction ps) (auto simp add: textsOf_def)
  moreover have "js [CHR 0x0A, CHR 0x0A] = [10, 10]" by (simp add: js_def)
  moreover assume "m_content m = ArrayContent parts"
  ultimately show ?thesis by (simp add: extractTextFromMessage_def join_with_joined)
qed

lemma responseText_on_agent_end:
  "responseText (on_agent_end msgs st) =
     (if list_all isWhiteSpace (responseText st) then extractTextFromMessage (lastAssistant msgs)
      else responseText st)"
  by (simp add: on_agent_end_def Let_def resolveDone_def trim_empty_iff)

lemma responseText_text_delta:
  "responseText (fst (on_event t (MessageUpdate (Some (TextDelta d))) (st, w0)))
     = responseText st @ d"
  by (simp add: on_event_def resetTimeout_def)

lemma agent_end_returns:
  assumes "donePromise st = Pending" and "\<not> timerDue t st"
  shows "\<exists>st' w'. step (Running AwaitDone st w) (t, Data [Json (AgentEnd msgs)]) =
           Returned (Inr \<lparr>response = trim (responseText (on_agent_end msgs st)),
                          r_usage = usage (on_agent_end msgs st)\<rparr>) st' w'"
proof -
  have "donePromise (on_agent_end msgs st) = Resolved ()"
    using assms(1) by (simp add: on_agent_end_def Let_def resolveDone_def resolveP_def)
  then show ?thesis
    using assms(2)
    by (simp add: step_def on_line_def on_event_def resume_def resumeDone_def race_def leave_eq
        unhandledRejection_def)
qed

lemma sendToAgent_snoc:
  "sendToAgent msg info tmo now (trace @ [ev]) w = step (sendToAgent msg info tmo now trace w) ev"
  by (simp add: sendToAgent_def)

text \<open>
  C2. On \<open>agent_end\<close>, when every unit of the streamed text is white space (none at all
  included), the response text becomes the text extracted from the last message of the
  terminal list whose role is \<open>assistant\<close> (the empty string when there is none): its
  content when that is a string, the texts of its parts tagged \<open>text\<close>, each but the first
  preceded by two newlines, when it is an array, the empty string otherwise. When the
  streamed text, which is the deltas one after the other, has a unit that is not white
  space, it is kept, whatever the terminal list holds. A turn that is waiting for
  completion when \<open>agent_end\<close> arrives returns that text without the white space at its
  two ends, and so does every \<open>sendToAgent\<close> that returns: the response is the text less a
  prefix and a suffix of white space, and begins and ends with none.
\<close>

theorem response_fallback_and_trim:
  "(list_all isWhiteSpace (responseText st) \<longrightarrow>
      responseText (on_agent_end msgs st) = extractTextFromMessage (lastAssistant msgs))
   \<and> (\<not> list_all isWhiteSpace (responseText st) \<longrightarrow>
        responseText (on_agent_end msgs st) = responseText st)
   \<and> isWhiteSpace c = (c \<in> set whiteSpaceUnits)
   \<and> responseText (fst (on_event t (MessageUpdate (Some (TextDelta d))) (st, w0)))
        = responseText st @ d
   \<and> (lastAssistant msgs = None) = (\<forall>x\<in>set msgs. \<not> isAssistant x)
   \<and> (lastAssistant msgs = Some m \<longrightarrow>
        (\<exists>pre post. msgs = pre @ m # post \<and> isAssistant m \<and> (\<forall>x\<in>set post. \<not> isAssistant x)))
   \<and> extractTextFromMessage None = []
   \<and> (m_content m = StringContent s \<longrightarrow> extractTextFromMessage (Some m) = s)
   \<and> (m_content m = ArrayContent parts \<longrightarrow>
        extractTextFromMessage (Some m) = joined [10, 10] (textsOf parts))
   \<and> (m_content m = OtherContent \<longrightarrow> extractTextFromMessage (Some m) = [])
   \<and> (sendToAgent msg info tmo now trace w = Running AwaitDone st1 w1 \<and> \<not> timerDue t st1 \<longrightarrow>
        (\<exists>res st' w'.
            sendToAgent msg info tmo now (trace @ [(t, Data [Json (AgentEnd msgs)])]) w
              = Returned (Inr res) st' w'
          \<and> strips (response res)
              (if list_all isWhiteSpace (responseText st1)
               then extractTextFromMessage (lastAssistant msgs) else responseText st1)))
   \<and> (sendToAgent msg info tmo now trace w = Returned (Inr res) st' w' \<longrightarrow>
        strips (response res) (responseText st'))"
proof -
  have e: "sendToAgent msg info tmo now trace w = Running AwaitDone st1 w1 \<and> \<not> timerDue t st1 \<longrightarrow>
        (\<exists>res st' w'.
            sendToAgent msg info tmo now (trace @ [(t, Data [Json (AgentEnd msgs)])]) w
              = Returned (Inr res) st' w'
          \<and> strips (response res)
              (if list_all isWhiteSpace (responseText st1)
               then extractTextFromMessage (lastAssistant msgs) else responseText st1))"
  proof
    assume a: "sendToAgent msg info tmo now trace w = Running AwaitDone st1 w1 \<and> \<not> timerDue t st1"
    then have "donePromise st1 = Pending"
      using sendToAgent_outInv [of msg info tmo now trace w] by (simp add: outInv_def awaited_def)
    from agent_end_returns [OF this, of t w1 msgs] a obtain st' w' where
      r: "step (Running AwaitDone st1 w1) (t, Data [Json (AgentEnd msgs)]) =
         Returned (Inr \<lparr>response = trim (responseText (on_agent_end msgs st1)),
                        r_usage = usage (on_agent_end msgs st1)\<rparr>) st' w'" by blast
    have "strips (trim (responseText (on_agent_end msgs st1))) (responseText (on_agent_end msgs st1))"
      by (rule strips_trim)
    then show "\<exists>res st' w'.
            sendToAgent msg info tmo now (trace @ [(t, Data [Json (AgentEnd msgs)])]) w
              = Returned (Inr res) st' w'
          \<and> strips (response res)
              (if list_all isWhiteSpace (responseText st1)
               then extractTextFromMessage (lastAssistant msgs) else responseText st1)"
      using a r by (simp add: sendToAgent_snoc responseText_on_agent_end)
  qed
  have f: "sendToAgent msg info tmo now trace w = Returned (Inr res) st' w' \<longrightarrow>
        strips (response res) (responseText st')"
    using sendToAgent_outInv [of msg info tmo now trace w]
    by (auto simp add: outInv_def returnedOk_def strips_trim)
  have g: "lastAssistant msgs = Some m \<longrightarrow>
        (\<exists>pre post. msgs = pre @ m # post \<and> isAssistant m \<and> (\<forall>x\<in>set post. \<not> isAssistant x))"
    using lastAssistant_Some by blast
  have h: "m_content m = ArrayContent parts \<longrightarrow>
        extractTextFromMessage (Some m) = joined [10, 10] (textsOf parts)"
    using extract_array by blast
  have i: "extractTextFromMessage None = []"
    "m_content m = StringContent s \<longrightarrow> extractTextFromMessage (Some m) = s"
    "m_content m = OtherContent \<longrightarrow> extractTextFromMessage (Some m) = []"
    by (simp_all add: extractTextFromMessage_def)
  have j: "list_all isWhiteSpace (responseText st) \<longrightarrow>
      responseText (on_agent_end msgs st) = extractTextFromMessage (lastAssistant msgs)"
    "\<not> list_all isWhiteSpace (responseText st) \<longrightarrow>
      responseText (on_agent_end msgs st) = responseText st"
    by (simp_all add: responseText_on_agent_end)
  have k: "(lastAssistant msgs = None) = (\<forall>x\<in>set msgs. \<not> isAssistant x)"
    by (rule lastAssistant_None)
  have l: "isWhiteSpace c = (c \<in> set whiteSpaceUnits)" by (rule isWhiteSpace_units)
  have n: "responseText (fst (on_event t (MessageUpdate (Some (TextDelta d))) (st, w0)))
        = responseText st @ d" by (rule responseText_text_delta)
  show ?thesis
    using e f g h i j k l n by blast
qed

lemma run_blank:
  "\<exists>st1 w1. sendToAgent (js ''hi'') abcInfo 300000 0 blankStream emptyWorld
        = Running AwaitDone st1 w1
      \<and> responseText st1 = [32, 10] \<and> \<not> timerDue 4 st1"
  by (simp add: run_defs blankStream_def textDelta_def writeProgress_def writeFileSync_def)

lemma run_padded:
  "\<exists>st1 w1. sendToAgent (js ''hi'') abcInfo 300000 0 paddedStream emptyWorld
        = Running AwaitDone st1 w1
      \<and> responseText st1 = js '' Hello '' @ [10] \<and> \<not> timerDue 5 st1"
  by (simp add: run_defs paddedStream_def textDelta_def writeProgress_def writeFileSync_def js_def)

lemma stream_samples:
  "list_all isWhiteSpace [32, 10]"
  "\<not> list_all isWhiteSpace (js '' Hello '' @ [10])"
  "trim (js '' Hello '' @ [10]) = js ''Hello''"
  "trim (js '' Answer:'' @ [10, 10] @ js ''42 '') = js ''Answer:'' @ [10, 10] @ js ''42''"
  by (simp_all add: trim_def js_def isWhiteSpace_def)

lemma extract_terminalList:
  "extractTextFromMessage (lastAssistant terminalList) = js '' Answer:'' @ [10, 10] @ js ''42 ''"
  by (simp add: lastAssistant_def terminalList_def draftMsg_def answerMsg_def userMsg_def
      assistantMsg_def extractTextFromMessage_def)
     (simp add: js_def)

theorem response_fallback_and_trim_witness:
  "(\<exists>res st' w'.
      sendToAgent (js ''hi'') abcInfo 300000 0
        (blankStream @ [(4, Data [Json (AgentEnd terminalList)])]) emptyWorld
        = Returned (Inr res) st' w'
      \<and> response res = js ''Answer:'' @ [10, 10] @ js ''42'')
   \<and> (\<exists>res st' w'.
      sendToAgent (js ''hi'') abcInfo 300000 0
        (paddedStream @ [(5, Data [Json (AgentEnd terminalList)])]) emptyWorld
        = Returned (Inr res) st' w'
      \<and> response res = js ''Hello'')"
proof -
  from run_blank obtain st1 w1 where
    a: "sendToAgent (js ''hi'') abcInfo 300000 0 blankStream emptyWorld = Running AwaitDone st1 w1"
      "responseText st1 = [32, 10]" "\<not> timerDue 4 st1" by blast
  have "\<exists>res st' w'.
      sendToAgent (js ''hi'') abcInfo 300000 0
        (blankStream @ [(4, Data [Json (AgentEnd terminalList)])]) emptyWorld
        = Returned (Inr res) st' w'
      \<and> strips (response res)
          (if list_all isWhiteSpace (responseText st1)
           then extractTextFromMessage (lastAssistant terminalList) else responseText st1)"
    using response_fallback_and_trim
      [where msgs = terminalList and msg = "js ''hi''" and info = abcInfo and tmo = 300000
         and now = 0 and trace = blankStream and w = emptyWorld and ?st1.0 = st1 and ?w1.0 = w1
         and t = 4] a
    by blast
  then obtain res st' w' where
    r1: "sendToAgent (js ''hi'') abcInfo 300000 0
        (blankStream @ [(4, Data [Json (AgentEnd terminalList)])]) emptyWorld
        = Returned (Inr res) st' w'"
    and s1: "strips (response res)
          (if list_all isWhiteSpace (responseText st1)
           then extractTextFromMessage (lastAssistant terminalList) else responseText st1)"
    by blast
  have "strips (response res) (js '' Answer:'' @ [10, 10] @ js ''42 '')"
    using s1 unfolding a(2) by (simp only: stream_samples(1) if_True extract_terminalList)
  then have "response res = trim (js '' Answer:'' @ [10, 10] @ js ''42 '')"
    by (rule strips_unique)
  then have "response res = js ''Answer:'' @ [10, 10] @ js ''42''"
    by (simp only: stream_samples(4))
  with r1 have first: "\<exists>res st' w'.
      sendToAgent (js ''hi'') abcInfo 300000 0
        (blankStream @ [(4, Data [Json (AgentEnd terminalList)])]) emptyWorld
        = Returned (Inr res) st' w'
      \<and> response res = js ''Answer:'' @ [10, 10] @ js ''42''"
    by blast
  from run_padded obtain st2 w2 where
    b: "sendToAgent (js ''hi'') abcInfo 300000 0 paddedStream emptyWorld = Running AwaitDone st2 w2"
      "responseText st2 = js '' Hello '' @ [10]" "\<not> timerDue 5 st2" by blast
  have "\<exists>res st' w'.
      sendToAgent (js ''hi'') abcInfo 300000 0
        (paddedStream @ [(5, Data [Json (AgentEnd terminalList)])]) emptyWorld
        = Returned (Inr res) st' w'
      \<and> strips (response res)
          (if list_all isWhiteSpace (responseText st2)
           then extractTextFromMessage (lastAssistant terminalList) else responseText st2)"
    using response_fallback_and_trim
      [where msgs = terminalList and msg = "js ''hi''" and info = abcInfo and tmo = 300000
         and now = 0 and trace = paddedStream and w = emptyWorld and ?st1.0 = st2 and ?w1.0 = w2
         and t = 5] b
    by blast
  then obtain res2 st2' w2' where
    r2: "sendToAgent (js ''hi'') abcInfo 300000 0
        (paddedStream @ [(5, Data [Json (AgentEnd terminalList)])]) emptyWorld
        = Returned (Inr res2) st2' w2'"
    and s2: "strips (response res2)
          (if list_all isWhiteSpace (responseText st2)
           then extractTextFromMessage (lastAssistant terminalList) else responseText st2)"
    by blast
  have "strips (response res2) (js '' Hello '' @ [10])"
    using s2 unfolding b(2) by (simp only: stream_samples(2) if_False)
  then have "response res2 = trim (js '' Hello '' @ [10])"
    by (rule strips_unique)
  then have "response res2 = js ''Hello''"
    by (simp only: stream_samples(3))
  with r2 have second: "\<exists>res st' w'.
      sendToAgent (js ''hi'') abcInfo 300000 0
        (paddedStream @ [(5, Data [Json (AgentEnd terminalList)])]) emptyWorld
        = Returned (Inr res) st' w'
      \<and> response res = js ''Hello''"
    by blast
  from first second show ?thesis by blast
qed

lemma cleanup_on_return:
  "sendToAgent msg info tmo now trace w = Returned r st' w' \<Longrightarrow>
   timeoutHandle st' = None \<and> files w' PROGRESS_FILE = None \<and> \<not> rlOpen st'
   \<and> \<not> stdinOpen st' \<and> killed st' = [SIGTERM]
   \<and> sendToAgent msg info tmo now (trace @ later) w = Returned r st' w'"
  using sendToAgent_outInv [of msg info tmo now trace w]
  by (simp add: outInv_def returnedOk_def sendToAgent_def foldl_step_Returned)

lemma no_cleanup_on_crash:
  "sendToAgent msg info tmo now trace w = Crashed e st' w' \<Longrightarrow>
   timeoutHandle st' \<noteq> None \<and> files w' PROGRESS_FILE \<noteq> None \<and> rlOpen st' \<and> stdinOpen st'
   \<and> killed st' = []
   \<and> sendToAgent msg info tmo now (trace @ later) w = Crashed e st' w'"
  using sendToAgent_outInv [of msg info tmo now trace w]
  by (auto simp add: outInv_def turnInv_def sendToAgent_def foldl_step_Crashed
      split: option.splits)

text \<open>
  C4 does not hold of the code. When the child exits before it has answered the
  handshake, the exit callback rejects \<open>donePromise\<close>, which has no handler before the
  third \<open>await\<close>: the process of the script ends on the unhandled rejection, the
  \<open>finally\<close> block never runs, the progress file stays, the timer is still armed and no
  \<open>SIGTERM\<close> is sent. The same happens on a hook error while the prompt is waited for, and
  on a line \<open>null\<close> at any time. The same exit once the prompt is acknowledged goes
  through \<open>finally\<close>: the progress file is gone and one \<open>SIGTERM\<close> was sent.
\<close>

theorem early_rejection_skips_cleanup:
  "crashOf (sendToAgent (js ''hi'') abcInfo 300000 0 earlyExit emptyWorld) = Some ProcessExited
   \<and> files (worldOf (sendToAgent (js ''hi'') abcInfo 300000 0 earlyExit emptyWorld)) PROGRESS_FILE
        \<noteq> None
   \<and> timeoutHandle (turnOf (sendToAgent (js ''hi'') abcInfo 300000 0 earlyExit emptyWorld)) \<noteq> None
   \<and> killed (turnOf (sendToAgent (js ''hi'') abcInfo 300000 0 earlyExit emptyWorld)) = []
   \<and> crashOf (sendToAgent (js ''hi'') abcInfo 300000 0 earlyHookError emptyWorld)
        = Some (HookErrorFatal (js ''boom''))
   \<and> files (worldOf (sendToAgent (js ''hi'') abcInfo 300000 0 earlyHookError emptyWorld))
        PROGRESS_FILE \<noteq> None
   \<and> killed (turnOf (sendToAgent (js ''hi'') abcInfo 300000 0 earlyHookError emptyWorld)) = []
   \<and> crashOf (sendToAgent (js ''hi'') abcInfo 300000 0 nullLine emptyWorld)
        = Some UncaughtTypeError
   \<and> files (worldOf (sendToAgent (js ''hi'') abcInfo 300000 0 nullLine emptyWorld)) PROGRESS_FILE
        \<noteq> None
   \<and> killed (turnOf (sendToAgent (js ''hi'') abcInfo 300000 0 nullLine emptyWorld)) = []
   \<and> resultOf (sendToAgent (js ''hi'') abcInfo 300000 0 childExit emptyWorld)
        = Some (Inl ProcessExited)
   \<and> files (worldOf (sendToAgent (js ''hi'') abcInfo 300000 0 childExit emptyWorld)) PROGRESS_FILE
        = None
   \<and> killed (turnOf (sendToAgent (js ''hi'') abcInfo 300000 0 childExit emptyWorld)) = [SIGTERM]"
proof -
  have a: "\<exists>st w. sendToAgent (js ''hi'') abcInfo 300000 0 earlyExit emptyWorld
      = Crashed ProcessExited st w"
    by (simp add: run_defs earlyExit_def)
  have b: "\<exists>st w. sendToAgent (js ''hi'') abcInfo 300000 0 earlyHookError emptyWorld
      = Crashed (HookErrorFatal (js ''boom'')) st w"
    by (simp add: run_defs earlyHookError_def orElse_def truthy_def) (simp add: js_def)
  have c: "\<exists>st w. sendToAgent (js ''hi'') abcInfo 300000 0 nullLine emptyWorld
      = Crashed UncaughtTypeError st w"
    by (simp add: run_defs nullLine_def)
  have d: "\<exists>st w. sendToAgent (js ''hi'') abcInfo 300000 0 childExit emptyWorld
      = Returned (Inl ProcessExited) st w"
    by (simp add: run_defs childExit_def)
  from a obtain st1 w1 where a1:
    "sendToAgent (js ''hi'') abcInfo 300000 0 earlyExit emptyWorld = Crashed ProcessExited st1 w1"
    by blast
  from b obtain st2 w2 where b1:
    "sendToAgent (js ''hi'') abcInfo 300000 0 earlyHookError emptyWorld
       = Crashed (HookErrorFatal (js ''boom'')) st2 w2" by blast
  from c obtain st3 w3 where c1:
    "sendToAgent (js ''hi'') abcInfo 300000 0 nullLine emptyWorld = Crashed UncaughtTypeError st3 w3"
    by blast
  from d obtain st4 w4 where d1:
    "sendToAgent (js ''hi'') abcInfo 300000 0 childExit emptyWorld
       = Returned (Inl ProcessExited) st4 w4" by blast
  show ?thesis
    using no_cleanup_on_crash [OF a1, of "[]"] no_cleanup_on_crash [OF b1, of "[]"]
      no_cleanup_on_crash [OF c1, of "[]"] cleanup_on_return [OF d1, of "[]"]
    by (simp add: a1 b1 c1 d1 crashOf_def resultOf_def worldOf_def turnOf_def)
qed

lemma on_lines_timer:
  "on_lines now ls sw = (None, sw') \<Longrightarrow>
   timeout (fst sw') = timeout (fst sw)
   \<and> timeoutPromise (fst sw') = timeoutPromise (fst sw)
   \<and> timeoutHandle (fst sw') =
       (if list_ex isActivityLine ls
        then Some (now + timerDelay (timeout (fst sw)), TimeoutInactivity (nat (timeout (fst sw))))
        else timeoutHandle (fst sw))"
proof (induction ls arbitrary: sw)
  case Nil
  then show ?case by simp
next
  case (Cons l ls)
  obtain st w where sw: "sw = (st, w)" by (cases sw)
  show ?case
  proof (cases l)
    case (Json ev)
    have "on_lines now ls (on_event now ev (st, w)) = (None, sw')"
      using Cons.prems by (simp add: Json on_line_def sw)
    from Cons.IH [OF this] show ?thesis
      by (simp add: sw Json isActivityLine_def on_event_frame on_event_timeoutHandle)
  next
    case JsonNull
    then show ?thesis using Cons.prems by (simp add: on_line_def)
  next
    case NonJson
    have "on_lines now ls sw = (None, sw')" using Cons.prems by (simp add: NonJson on_line_def)
    from Cons.IH [OF this] show ?thesis by (simp add: NonJson isActivityLine_def)
  qed
qed

lemma resume_Running_timer:
  "resume ph st w = Running ph' st' w' \<Longrightarrow>
   timeoutHandle st' = timeoutHandle st \<and> timeout st' = timeout st"
  by (cases ph)
     (auto simp add: resume_def resumeHandshake_def resumePrompt_def resumeDone_def race_def
        leave_eq sendCommand_def Let_def split: promise.splits)

lemma resume_Returned_timer:
  "resume ph st w = Returned r st' w' \<Longrightarrow> timeoutPromise st' = timeoutPromise st"
  by (cases ph)
     (auto simp add: resume_def resumeHandshake_def resumePrompt_def resumeDone_def race_def
        leave_eq sendCommand_def Let_def split: promise.splits)

lemma resume_timer:
  "case unhandledRejection (resume ph st w) of
     Running ph' st' w' \<Rightarrow> timeoutHandle st' = timeoutHandle st \<and> timeout st' = timeout st
   | Returned r st' w' \<Rightarrow> timeoutPromise st' = timeoutPromise st
   | Crashed e st' w' \<Rightarrow> True"
proof (cases "resume ph st w")
  case (Running ph' st' w')
  from resume_Running_timer [OF this] show ?thesis
    by (simp add: Running unhandledRejection_def split: promise.splits)
next
  case (Returned r st' w')
  from resume_Returned_timer [OF this] show ?thesis
    by (simp add: Returned unhandledRejection_def)
next
  case (Crashed e st' w')
  then show ?thesis by (simp add: unhandledRejection_def)
qed

lemma on_exit_timer:
  "timeoutHandle (on_exit st) = timeoutHandle st" "timeout (on_exit st) = timeout st"
  "timeoutPromise (on_exit st) = timeoutPromise st"
  by (simp_all add: on_exit_def rejectDone_def)

text \<open>What a step does to the timer when the timer is not due.\<close>

lemma step_timer:
  assumes "\<not> timerDue now st"
  shows "case step (Running ph st w) (now, x) of
           Running ph' st' w' \<Rightarrow>
             timeout st' = timeout st
             \<and> timeoutHandle st' =
                 (if hasActivity x
                  then Some (now + timerDelay (timeout st), TimeoutInactivity (nat (timeout st)))
                  else timeoutHandle st)
         | Returned r st' w' \<Rightarrow> timeoutPromise st' = timeoutPromise st
         | Crashed e st' w' \<Rightarrow> True"
proof (cases x)
  case (Data ls)
  obtain err st1 w1 where f: "on_lines now ls (st, w) = (err, st1, w1)"
    by (cases "on_lines now ls (st, w)") auto
  show ?thesis
  proof (cases err)
    case (Some e)
    then show ?thesis using assms by (simp add: step_def Data f)
  next
    case None
    have t: "timeout st1 = timeout st" "timeoutPromise st1 = timeoutPromise st"
      "timeoutHandle st1 =
         (if list_ex isActivityLine ls
          then Some (now + timerDelay (timeout st), TimeoutInactivity (nat (timeout st)))
          else timeoutHandle st)"
      using on_lines_timer [of now ls "(st, w)" "(st1, w1)"] f None by simp_all
    have s: "step (Running ph st w) (now, Data ls) = unhandledRejection (resume ph st1 w1)"
      using assms by (simp add: step_def f None)
    show ?thesis
      using resume_timer [where ph = ph and st = st1 and w = w1] t
      by (auto simp add: Data s hasActivity_def split: outcome.splits)
  qed
next
  case Exit
  have s: "step (Running ph st w) (now, Exit) = unhandledRejection (resume ph (on_exit st) w)"
    using assms by (simp add: step_def)
  show ?thesis
    using resume_timer [where ph = ph and st = "on_exit st" and w = w]
    by (auto simp add: Exit s hasActivity_def on_exit_timer split: outcome.splits)
next
  case Tick
  then show ?thesis using assms by (simp add: step_def hasActivity_def)
qed

lemma timerDelay_id: "1 \<le> T \<Longrightarrow> T \<le> 2147483647 \<Longrightarrow> timerDelay T = T"
  by (simp add: timerDelay_def)

lemma startTurn_eq:
  "\<exists>st w1. startTurn msg info tmo now w = Running AwaitHandshake st w1 \<and> timeout st = tmo
     \<and> timeoutHandle st = Some (now + timerDelay tmo, TimeoutWaiting (nat tmo))"
  by (simp add: startTurn_def Let_def resumeHandshake_def race_def sendCommand_def)

lemma step_pacedInv:
  assumes tv: "1 \<le> T" "T \<le> 2147483647"
    and inv: "outInv oc" and p: "pacedInv T since oc" and lt: "fst ev < since + T"
  shows "pacedInv T (if hasActivity (snd ev) then fst ev else since) (step oc ev)"
proof (cases oc)
  case (Returned r st w)
  with p show ?thesis by (simp add: pacedInv_def step_def)
next
  case (Crashed e st w)
  then show ?thesis by (simp add: pacedInv_def step_def)
next
  case (Running ph st w)
  obtain now x where ev: "ev = (now, x)" by (cases ev)
  from p Running obtain d e where h: "timeoutHandle st = Some (d, e)" "since + T \<le> d"
    and t: "timeout st = T"
    by (auto simp add: pacedInv_def split: option.splits)
  have nd: "\<not> timerDue now st" using h lt by (simp add: timerDue_def ev)
  have pend: "timeoutPromise st = Pending" using inv Running by (simp add: outInv_def turnInv_def)
  show ?thesis
    using step_timer [OF nd, where ph = ph and w = w and x = x] h t pend
    by (auto simp add: Running ev pacedInv_def timerDelay_id [OF tv] split: outcome.splits)
qed

lemma paced_run:
  assumes tv: "1 \<le> T" "T \<le> 2147483647"
  shows "outInv oc \<Longrightarrow> pacedInv T since oc \<Longrightarrow> paced T since trace \<Longrightarrow>
         \<exists>since'. pacedInv T since' (foldl step oc trace)"
proof (induction trace arbitrary: oc since)
  case Nil
  then show ?case by auto
next
  case (Cons ev rest)
  have "pacedInv T (if hasActivity (snd ev) then fst ev else since) (step oc ev)"
    using step_pacedInv [OF tv Cons.prems(1,2)] Cons.prems(3) by simp
  moreover have "outInv (step oc ev)" using Cons.prems(1) by (rule step_outInv)
  moreover have "paced T (if hasActivity (snd ev) then fst ev else since) rest"
    using Cons.prems(3) by simp
  ultimately show ?case using Cons.IH by simp
qed

lemma step_boundInv:
  assumes tv: "1 \<le> T" "T \<le> 2147483647"
    and inv: "outInv oc" and b: "boundInv T a oc" and le: "fst ev \<le> a"
  shows "boundInv T a (step oc ev)"
proof (cases oc)
  case (Returned r st w)
  then show ?thesis by (simp add: boundInv_def step_def)
next
  case (Crashed e st w)
  then show ?thesis by (simp add: boundInv_def step_def)
next
  case (Running ph st w)
  obtain now x where ev: "ev = (now, x)" by (cases ev)
  from b Running obtain d e where h: "timeoutHandle st = Some (d, e)" "d \<le> a + T"
    and t: "timeout st = T"
    by (auto simp add: boundInv_def split: option.splits)
  from inv Running have ti: "turnInv st" and aw: "awaited ph st = Pending"
    by (simp_all add: outInv_def)
  show ?thesis
  proof (cases "timerDue now st")
    case True
    from timer_fires [OF ti aw True, of w] show ?thesis
      by (auto simp add: Running ev step_def True boundInv_def unhandledRejection_Returned)
  next
    case False
    show ?thesis
      using step_timer [OF False, where ph = ph and w = w and x = x] h t le
      by (auto simp add: Running ev boundInv_def timerDelay_id [OF tv] split: outcome.splits)
  qed
qed

lemma bound_run:
  assumes tv: "1 \<le> T" "T \<le> 2147483647"
  shows "outInv oc \<Longrightarrow> boundInv T a oc \<Longrightarrow> notAfter a trace \<Longrightarrow>
         boundInv T a (foldl step oc trace)"
proof (induction trace arbitrary: oc)
  case Nil
  then show ?case by simp
next
  case (Cons ev rest)
  have "boundInv T a (step oc ev)"
    using step_boundInv [OF tv Cons.prems(1,2)] Cons.prems(3) by (simp add: notAfter_def)
  moreover have "outInv (step oc ev)" using Cons.prems(1) by (rule step_outInv)
  moreover have "notAfter a rest" using Cons.prems(3) by (simp add: notAfter_def)
  ultimately show ?case using Cons.IH by simp
qed

lemma quiet_run:
  "outInv (Running ph st w) \<Longrightarrow> quiet mid \<Longrightarrow>
   foldl step (Running ph st w) mid = Running ph' st' w' \<Longrightarrow>
   timeoutHandle st' = timeoutHandle st \<and> timeout st' = timeout st"
proof (induction mid arbitrary: ph st w)
  case Nil
  then show ?case by simp
next
  case (Cons ev rest)
  obtain now x where ev: "ev = (now, x)" by (cases ev)
  from Cons.prems(1) have ti: "turnInv st" and aw: "awaited ph st = Pending"
    by (simp_all add: outInv_def)
  have q: "\<not> hasActivity x" "quiet rest" using Cons.prems(2) by (simp_all add: quiet_def ev)
  have o: "outInv (step (Running ph st w) ev)" using Cons.prems(1) by (rule step_outInv)
  show ?case
  proof (cases "step (Running ph st w) ev")
    case (Returned r st1 w1)
    with Cons.prems(3) show ?thesis by (simp add: foldl_step_Returned)
  next
    case (Crashed e st1 w1)
    with Cons.prems(3) show ?thesis by (simp add: foldl_step_Crashed)
  next
    case (Running ph1 st1 w1)
    have nd: "\<not> timerDue now st"
    proof
      assume d: "timerDue now st"
      from timer_fires [OF ti aw d, of w] Running show False
        by (auto simp add: ev step_def d unhandledRejection_Returned)
    qed
    have same: "timeoutHandle st1 = timeoutHandle st \<and> timeout st1 = timeout st"
      using step_timer [OF nd, where ph = ph and w = w and x = x] Running q(1) by (simp add: ev)
    have "timeoutHandle st' = timeoutHandle st1 \<and> timeout st' = timeout st1"
      using Cons.IH [of ph1 st1 w1] o q(2) Cons.prems(3) by (simp add: Running)
    with same show ?thesis by simp
  qed
qed

lemma sendToAgent_append:
  "sendToAgent msg info tmo now (xs @ ys) w = foldl step (sendToAgent msg info tmo now xs w) ys"
  by (simp add: sendToAgent_def)

lemma on_line_rearms:
  "isActivity ev \<Longrightarrow> 1 \<le> timeout st \<Longrightarrow> timeout st \<le> 2147483647 \<Longrightarrow>
   on_line t (Json ev) (st, w0) = Inr (on_event t ev (st, w0))
   \<and> timeoutHandle (fst (on_event t ev (st, w0)))
       = Some (t + timeout st, TimeoutInactivity (nat (timeout st)))"
  by (simp add: on_line_def on_event_timeoutHandle timerDelay_id)

lemma paced_never_times_out:
  assumes tv: "1 \<le> tmo" "tmo \<le> 2147483647" and p: "paced tmo now trace"
    and r: "sendToAgent msg info tmo now trace w = Returned (Inl e) st' w'"
  shows "\<not> isTimeout e"
proof -
  obtain st w1 where s: "startTurn msg info tmo now w = Running AwaitHandshake st w1"
    "timeout st = tmo" "timeoutHandle st = Some (now + timerDelay tmo, TimeoutWaiting (nat tmo))"
    using startTurn_eq [of msg info tmo now w] by blast
  have "pacedInv tmo now (startTurn msg info tmo now w)"
    by (simp add: s pacedInv_def timerDelay_id [OF tv])
  from paced_run [OF tv startTurn_outInv this p] r have "timeoutPromise st' = Pending"
    by (auto simp add: sendToAgent_def pacedInv_def)
  moreover have "returnedOk (Inl e) st' w'"
    using sendToAgent_outInv [of msg info tmo now trace w] r by (simp add: outInv_def)
  ultimately show ?thesis by (simp add: returnedOk_def)
qed

lemma silence_times_out:
  assumes tv: "1 \<le> tmo" "tmo \<le> 2147483647" and le: "now \<le> a" and na: "notAfter a pre"
    and r1: "sendToAgent msg info tmo now pre w = Running ph1 st1 w1"
    and q: "quiet mid"
    and r2: "sendToAgent msg info tmo now (pre @ mid) w = Running ph st2 w2"
    and late: "a + tmo \<le> t2"
  shows "\<exists>e2 st3 w3. sendToAgent msg info tmo now (pre @ mid @ [(t2, x)]) w
            = Returned (Inl e2) st3 w3 \<and> isTimeout e2"
proof -
  obtain st w0 where s: "startTurn msg info tmo now w = Running AwaitHandshake st w0"
    "timeout st = tmo" "timeoutHandle st = Some (now + timerDelay tmo, TimeoutWaiting (nat tmo))"
    using startTurn_eq [of msg info tmo now w] by blast
  have "boundInv tmo a (startTurn msg info tmo now w)"
    using le by (simp add: s boundInv_def timerDelay_id [OF tv])
  from bound_run [OF tv startTurn_outInv this na] r1
  obtain d e where h1: "timeoutHandle st1 = Some (d, e)" "d \<le> a + tmo"
    by (auto simp add: sendToAgent_def boundInv_def split: option.splits)
  have o1: "outInv (Running ph1 st1 w1)"
    using sendToAgent_outInv [of msg info tmo now pre w] r1 by simp
  have "foldl step (Running ph1 st1 w1) mid = Running ph st2 w2"
    using r1 r2 by (simp add: sendToAgent_append)
  from quiet_run [OF o1 q this] h1 have h2: "timeoutHandle st2 = Some (d, e)" by simp
  have o2: "turnInv st2" "awaited ph st2 = Pending"
    using sendToAgent_outInv [of msg info tmo now "pre @ mid" w] r2 by (simp_all add: outInv_def)
  have due: "timerDue t2 st2" using h1 h2 late by (simp add: timerDue_def)
  from timer_fires [OF o2 due, of w2] obtain e2 st3 w3 where
    "resume ph (fireTimer st2) w2 = Returned (Inl e2) st3 w3" "isTimeout e2" by blast
  then have "step (Running ph st2 w2) (t2, x) = Returned (Inl e2) st3 w3 \<and> isTimeout e2"
    using due by (simp add: step_def unhandledRejection_Returned)
  moreover have "sendToAgent msg info tmo now (pre @ mid @ [(t2, x)]) w
      = step (sendToAgent msg info tmo now (pre @ mid) w) (t2, x)"
    using sendToAgent_snoc [of msg info tmo now "pre @ mid" "(t2, x)" w] by simp
  ultimately show ?thesis using r2 by simp
qed

text \<open>
  C3, as stated, fails. The first timer is armed when the turn starts, before the
  handshake, and the acknowledgment of the prompt does not rearm it: with a timeout of 10,
  a prompt acknowledged at time 6 and a tool event at times 11 and 16, every event comes
  less than the timeout after the one before it, counted from the acknowledgment, and the
  turn still fails with a timeout error, the timer of time 0 being due at time 10. And
  \<open>setTimeout\<close> takes a delay above \<open>2^31 - 1\<close> for 1: with a timeout of \<open>2^31\<close> an event
  at time 0 sets the timer to time 1, not to time \<open>2^31\<close>, and the turn fails on
  inactivity at time 1.
\<close>

theorem late_acknowledgment_counterexample:
  "phaseOf (sendToAgent (js ''hi'') abcInfo 10 0 lateAck emptyWorld) = Some AwaitDone
   \<and> paced 10 6 afterLateAck
   \<and> resultOf (sendToAgent (js ''hi'') abcInfo 10 0 (lateAck @ afterLateAck) emptyWorld)
       = Some (Inl (TimeoutWaiting 10))
   \<and> isTimeout (TimeoutWaiting 10)
   \<and> paced 2147483648 0 atOnce
   \<and> resultOf (sendToAgent (js ''hi'') abcInfo 2147483648 0 atOnce emptyWorld)
       = Some (Inl (TimeoutInactivity 2147483648))"
  by (simp add: run_defs lateAck_def afterLateAck_def atOnce_def toolStart_def phaseOf_def
      resultOf_def hasActivity_def isActivityLine_def isActivity_def isTimeout_def
      writeProgress_def writeFileSync_def)

text \<open>
  C3, amended. With a configured timeout that \<open>setTimeout\<close> honours (1 to \<open>2^31 - 1\<close> ms):
  every protocol activity event rearms the timer to the time of the event plus the
  timeout. A turn in which every occurrence comes less than the timeout after the last
  activity, counted from the start of the turn, where the first timer is armed, never
  fails with a timeout error, whichever of the two. A turn that is waiting for completion
  at a time \<open>a\<close>, sees no activity from then on and is still suspended, fails with a
  timeout error at the first occurrence at or after \<open>a\<close> plus the timeout.
\<close>

theorem sliding_inactivity_deadline:
  "(isActivity ev \<and> 1 \<le> timeout st \<and> timeout st \<le> 2147483647 \<longrightarrow>
      on_line t (Json ev) (st, w0) = Inr (on_event t ev (st, w0))
      \<and> timeoutHandle (fst (on_event t ev (st, w0)))
          = Some (t + timeout st, TimeoutInactivity (nat (timeout st))))
   \<and> (1 \<le> tmo \<and> tmo \<le> 2147483647 \<and> paced tmo now trace
       \<and> sendToAgent msg info tmo now trace w = Returned (Inl e) st' w'
      \<longrightarrow> \<not> isTimeout e)
   \<and> (1 \<le> tmo \<and> tmo \<le> 2147483647 \<and> now \<le> a \<and> notAfter a pre
       \<and> sendToAgent msg info tmo now pre w = Running AwaitDone st1 w1 \<and> quiet mid
       \<and> sendToAgent msg info tmo now (pre @ mid) w = Running ph st2 w2 \<and> a + tmo \<le> t2
      \<longrightarrow> (\<exists>e2 st3 w3. sendToAgent msg info tmo now (pre @ mid @ [(t2, x)]) w
                = Returned (Inl e2) st3 w3 \<and> isTimeout e2))"
  using on_line_rearms [of ev st t w0]
    paced_never_times_out [of tmo now trace msg info w e st' w']
    silence_times_out [of tmo now a pre msg info w AwaitDone st1 w1 mid ph st2 w2 t2 x]
  by blast

lemma run_short:
  "\<exists>st1 w1. sendToAgent (js ''hi'') abcInfo 10 0 acked emptyWorld = Running AwaitDone st1 w1
      \<and> timeout st1 = 10"
  "\<exists>st w. sendToAgent (js ''hi'') abcInfo 10 0 busy emptyWorld = Running AwaitDone st w"
  "\<exists>e st w. sendToAgent (js ''hi'') abcInfo 10 0 (busy @ [(23, Data [Json (HookError None)])])
      emptyWorld = Returned (Inl e) st w"
  "\<exists>ph st w. sendToAgent (js ''hi'') abcInfo 10 0 (acked @ [(5, Data [NonJson])]) emptyWorld
      = Running ph st w"
     apply (simp add: run_defs)
    apply (simp add: run_defs busy_def toolStart_def writeProgress_def writeFileSync_def)
   apply (simp add: run_defs busy_def toolStart_def writeProgress_def writeFileSync_def)
  apply (simp add: run_defs)
  done

lemma paced_busy: "paced 10 0 (busy @ [(23, Data [Json (HookError None)])])"
  by (simp add: busy_def acked_def ack_def toolStart_def hasActivity_def isActivityLine_def
      isActivity_def)

theorem sliding_inactivity_deadline_witness:
  "(\<exists>st1 w1. sendToAgent (js ''hi'') abcInfo 10 0 acked emptyWorld = Running AwaitDone st1 w1
      \<and> on_line 7 (Json ToolExecutionUpdate) (st1, w1)
          = Inr (on_event 7 ToolExecutionUpdate (st1, w1))
      \<and> timeoutHandle (fst (on_event 7 ToolExecutionUpdate (st1, w1)))
          = Some (17, TimeoutInactivity 10))
   \<and> (\<exists>st w. sendToAgent (js ''hi'') abcInfo 10 0 busy emptyWorld = Running AwaitDone st w)
   \<and> paced 10 0 (busy @ [(23, Data [Json (HookError None)])])
   \<and> (\<exists>e st w. sendToAgent (js ''hi'') abcInfo 10 0
         (busy @ [(23, Data [Json (HookError None)])]) emptyWorld = Returned (Inl e) st w
       \<and> \<not> isTimeout e)
   \<and> (\<exists>e st w. sendToAgent (js ''hi'') abcInfo 10 0
         (acked @ [(5, Data [NonJson])] @ [(12, Tick)]) emptyWorld = Returned (Inl e) st w
       \<and> isTimeout e)"
proof -
  from run_short(1) obtain st1 w1 where
    a: "sendToAgent (js ''hi'') abcInfo 10 0 acked emptyWorld = Running AwaitDone st1 w1"
      "timeout st1 = 10" by blast
  have act: "isActivity ToolExecutionUpdate" by (simp add: isActivity_def)
  have "on_line 7 (Json ToolExecutionUpdate) (st1, w1)
          = Inr (on_event 7 ToolExecutionUpdate (st1, w1))
        \<and> timeoutHandle (fst (on_event 7 ToolExecutionUpdate (st1, w1)))
          = Some (7 + timeout st1, TimeoutInactivity (nat (timeout st1)))"
    using sliding_inactivity_deadline
      [where ev = ToolExecutionUpdate and st = st1 and t = 7 and ?w0.0 = w1] act a(2)
    by simp
  then have first: "\<exists>st1 w1.
      sendToAgent (js ''hi'') abcInfo 10 0 acked emptyWorld = Running AwaitDone st1 w1
      \<and> on_line 7 (Json ToolExecutionUpdate) (st1, w1)
          = Inr (on_event 7 ToolExecutionUpdate (st1, w1))
      \<and> timeoutHandle (fst (on_event 7 ToolExecutionUpdate (st1, w1)))
          = Some (17, TimeoutInactivity 10)"
    using a by auto
  from run_short(3) obtain e st w where
    b: "sendToAgent (js ''hi'') abcInfo 10 0 (busy @ [(23, Data [Json (HookError None)])])
          emptyWorld = Returned (Inl e) st w" by blast
  have "\<not> isTimeout e"
    using sliding_inactivity_deadline
      [where tmo = 10 and now = 0 and trace = "busy @ [(23, Data [Json (HookError None)])]"
         and msg = "js ''hi''" and info = abcInfo and w = emptyWorld and e = e and st' = st
         and w' = w] paced_busy b
    by simp
  with b have third: "\<exists>e st w. sendToAgent (js ''hi'') abcInfo 10 0
         (busy @ [(23, Data [Json (HookError None)])]) emptyWorld = Returned (Inl e) st w
       \<and> \<not> isTimeout e" by blast
  from run_short(4) obtain ph st2 w2 where
    c: "sendToAgent (js ''hi'') abcInfo 10 0 (acked @ [(5, Data [NonJson])]) emptyWorld
          = Running ph st2 w2" by blast
  have na: "notAfter 2 acked" by (simp add: notAfter_def acked_def)
  have q: "quiet [(5, Data [NonJson])]"
    by (simp add: quiet_def hasActivity_def isActivityLine_def)
  have fourth: "\<exists>e st w. sendToAgent (js ''hi'') abcInfo 10 0
         (acked @ [(5, Data [NonJson])] @ [(12, Tick)]) emptyWorld = Returned (Inl e) st w
       \<and> isTimeout e"
    using sliding_inactivity_deadline
      [where tmo = 10 and now = 0 and a = 2 and pre = acked and msg = "js ''hi''"
         and info = abcInfo and w = emptyWorld and ?st1.0 = st1 and ?w1.0 = w1
         and mid = "[(5, Data [NonJson])]" and ph = ph and ?st2.0 = st2 and ?w2.0 = w2
         and ?t2.0 = 12 and x = Tick] a(1) c na q
    by simp
  from first run_short(2) paced_busy third fourth show ?thesis by blast
qed

section \<open>Validation of ids and names\<close>

lemma cmdStart_invalid_name:
  assumes "s \<noteq> []" and "\<not> matchesIdPattern s \<or> 64 < length s" and "so_name options = Some s"
  shows "cmdStart options uuid t w =
           (Inl (if 58 \<notin> set (so_model options) then InvalidModelFormat (so_model options)
                 else if \<not> matchesIdPattern s then InvalidSessionName s
                 else SessionNameTooLong s), w)"
  using assms
  by (auto simp add: cmdStart_def Let_def split_on_lt2 truthy_def validateSessionName_def)

lemma cmdSend_invalid:
  "\<not> matchesIdPattern s \<Longrightarrow> cmdSend msg s tmo now trace w = Inl (InvalidSessionId s, w)"
  by (simp add: cmdSend_def loadSessionInfo_invalid)

text \<open>
  C7, as stated, fails: the empty string does not match the pattern, yet \<open>start\<close> with the
  empty string as its name is not rejected. \<open>if (options.name)\<close> takes it for no name at
  all, and the command goes on to write a record under the generated id.
\<close>

theorem empty_name_counterexample:
  "\<not> matchesIdPattern []
   \<and> fst (cmdStart emptyNameOptions (js ''u'') 7 emptyWorld) = Inr (js ''u'')
   \<and> fslog (snd (cmdStart emptyNameOptions (js ''u'') 7 emptyWorld)) \<noteq> []
   \<and> files (snd (cmdStart emptyNameOptions (js ''u'') 7 emptyWorld)) (infoPathOf (js ''u''))
       \<noteq> files emptyWorld (infoPathOf (js ''u''))"
proof -
  have n: "\<not> truthy (so_name emptyNameOptions)" "58 \<in> set (so_model emptyNameOptions)"
    by (simp_all add: emptyNameOptions_def truthy_def js_def)
  show ?thesis
    by (simp add: cmdStart_noname [OF n(2) n(1)] matchesIdPattern_def saveSessionInfo_files
        emptyWorld_def)
       (simp add: saveSessionInfo_def getSessionInfoPath_eq writeFileSync_def)
qed

text \<open>
  C7, amended. Every string that does not match the pattern is rejected by \<open>load\<close>,
  \<open>send\<close>, \<open>end\<close> and \<open>purge\<close> with the invalid-id error, and every non-empty name that
  does not match it or is longer than 64 is rejected by \<open>start\<close> with a validation error
  (of the model string first, when that has no colon); in each case the filesystem is
  returned as it was, its trace of calls included, so nothing was read or written.
\<close>

theorem invalid_id_rejected_before_io:
  "(\<not> matchesIdPattern s \<longrightarrow>
      loadSessionInfo s w = (Inl (InvalidSessionId s), w)
      \<and> cmdSend msg s tmo now trace w = Inl (InvalidSessionId s, w)
      \<and> cmdEnd t s w = (Inl (InvalidSessionId s), w)
      \<and> cmdPurge s w = (Inl (InvalidSessionId s), w))
   \<and> (s \<noteq> [] \<and> (\<not> matchesIdPattern s \<or> 64 < length s) \<and> so_name options = Some s \<longrightarrow>
      cmdStart options uuid t w =
        (Inl (if 58 \<notin> set (so_model options) then InvalidModelFormat (so_model options)
              else if \<not> matchesIdPattern s then InvalidSessionName s
              else SessionNameTooLong s), w))"
  using cmdStart_invalid_name [of s options uuid t w]
  by (simp add: loadSessionInfo_invalid cmdSend_invalid cmdEnd_def closeSession_invalid
      cmdPurge_def purgeSession_invalid)

theorem invalid_id_rejected_before_io_witness:
  "\<not> matchesIdPattern (js ''a.b'')
   \<and> loadSessionInfo (js ''a.b'') storedWorld = (Inl (InvalidSessionId (js ''a.b'')), storedWorld)
   \<and> cmdSend (js ''hi'') (js ''a.b'') None 0 [] storedWorld
       = Inl (InvalidSessionId (js ''a.b''), storedWorld)
   \<and> cmdEnd 9 (js ''a.b'') storedWorld = (Inl (InvalidSessionId (js ''a.b'')), storedWorld)
   \<and> cmdPurge (js ''a.b'') storedWorld = (Inl (InvalidSessionId (js ''a.b'')), storedWorld)
   \<and> cmdStart dottedOptions (js ''u'') 9 storedWorld
       = (Inl (InvalidSessionName (js ''a.b'')), storedWorld)
   \<and> cmdStart (dottedOptions\<lparr>so_name := Some longName\<rparr>) (js ''u'') 9 storedWorld
       = (Inl (SessionNameTooLong longName), storedWorld)"
proof -
  have bad: "\<not> matchesIdPattern (js ''a.b'')"
    by (simp add: matchesIdPattern_def js_def isIdChar_def)
  have ne: "js ''a.b'' \<noteq> []" by (simp add: js_def)
  have m: "58 \<in> set (so_model dottedOptions)" "so_name dottedOptions = Some (js ''a.b'')"
    by (simp_all add: dottedOptions_def js_def)
  have long: "matchesIdPattern longName" "64 < length longName" "longName \<noteq> []"
    by (simp_all add: longName_def matchesIdPattern_def isIdChar_def list_all_iff)
  have a: "loadSessionInfo (js ''a.b'') storedWorld = (Inl (InvalidSessionId (js ''a.b'')), storedWorld)
      \<and> cmdSend (js ''hi'') (js ''a.b'') None 0 [] storedWorld
          = Inl (InvalidSessionId (js ''a.b''), storedWorld)
      \<and> cmdEnd 9 (js ''a.b'') storedWorld = (Inl (InvalidSessionId (js ''a.b'')), storedWorld)
      \<and> cmdPurge (js ''a.b'') storedWorld = (Inl (InvalidSessionId (js ''a.b'')), storedWorld)"
    using invalid_id_rejected_before_io
      [where s = "js ''a.b''" and w = storedWorld and msg = "js ''hi''" and tmo = None
         and now = 0 and trace = "[]" and t = 9] bad
    by blast
  have b: "cmdStart dottedOptions (js ''u'') 9 storedWorld
       = (Inl (InvalidSessionName (js ''a.b'')), storedWorld)"
    using invalid_id_rejected_before_io
      [where s = "js ''a.b''" and options = dottedOptions and uuid = "js ''u''" and t = 9
         and w = storedWorld] bad ne m
    by simp
  have c: "cmdStart (dottedOptions\<lparr>so_name := Some longName\<rparr>) (js ''u'') 9 storedWorld
       = (Inl (SessionNameTooLong longName), storedWorld)"
    using invalid_id_rejected_before_io
      [where s = longName and options = "dottedOptions\<lparr>so_name := Some longName\<rparr>"
         and uuid = "js ''u''" and t = 9 and w = storedWorld] long m
    by simp
  from bad a b c show ?thesis by blast
qed

end
